theory Spec2Isabelle
  imports Main "HOL-Library.Sublist"
begin

section \<open>Python values used by the renderer\<close>

text \<open>
  The exceptions that the modelled functions can raise.  An uncaught exception is the
  value \<open>Inl e\<close> of a result \<open>py_error + 'a\<close>.
\<close>

datatype py_error =
    ZeroDivisionError
  | KeyError string
  | IndexError
  | ValueError string
  | AssertionError string

subsection \<open>Decimal rendering of integers (\<^verbatim>\<open>f"{n}"\<close>)\<close>

definition digit_char :: "nat \<Rightarrow> char" where
  "digit_char d =
     (if d = 0 then CHR ''0'' else if d = 1 then CHR ''1'' else if d = 2 then CHR ''2''
      else if d = 3 then CHR ''3'' else if d = 4 then CHR ''4'' else if d = 5 then CHR ''5''
      else if d = 6 then CHR ''6'' else if d = 7 then CHR ''7'' else if d = 8 then CHR ''8''
      else CHR ''9'')"

function str_nat :: "nat \<Rightarrow> string" where
  "str_nat n = (if n < 10 then [digit_char n] else str_nat (n div 10) @ [digit_char (n mod 10)])"
  by pat_completeness auto
termination
  by (relation "measure id") auto

declare str_nat.simps [simp del]

definition str_int :: "int \<Rightarrow> string" where
  "str_int i = (if i < 0 then CHR ''-'' # str_nat (nat (- i)) else str_nat (nat i))"

subsection \<open>Dictionaries with insertion order\<close>

text \<open>
  A Python \<^verbatim>\<open>dict\<close> keeps its keys in the order of their first insertion; storing
  under a key that is present replaces the value and keeps the position.
\<close>

type_synonym ('k, 'v) dict = "('k \<times> 'v) list"

fun dict_set :: "('k, 'v) dict \<Rightarrow> 'k \<Rightarrow> 'v \<Rightarrow> ('k, 'v) dict" where
  "dict_set [] k v = [(k, v)]"
| "dict_set ((k', v') # d) k v = (if k' = k then (k, v) # d else (k', v') # dict_set d k v)"

definition dict_get :: "('k, 'v) dict \<Rightarrow> 'k \<Rightarrow> 'v option" where
  "dict_get d k = map_of d k"

definition dict_keys :: "('k, 'v) dict \<Rightarrow> 'k list" where
  "dict_keys d = map fst d"

definition dict_from :: "('k \<times> 'v) list \<Rightarrow> ('k, 'v) dict" where
  "dict_from kvs = fold (\<lambda>(k, v) d. dict_set d k v) kvs []"

section \<open>The architecture graph (\<^verbatim>\<open>dsl: dict[str, Any]\<close>)\<close>

text \<open>
  The render path works on plain dictionaries.  A key that the code reads with
  \<^verbatim>\<open>d["k"]\<close> is a plain field; a key read with \<^verbatim>\<open>d.get("k")\<close> is an optional
  field, \<open>None\<close> when the key is missing (\<open>zone_ord\<close> is the key
  \<^verbatim>\<open>order\<close> of a zone).  The keys \<^verbatim>\<open>title\<close>, \<^verbatim>\<open>groups\<close> and
  \<^verbatim>\<open>controls\<close> are carried through by \<^verbatim>\<open>{**dsl, ...}\<close> and never read; they are
  left out.
\<close>

record zone =
  zone_id :: string
  zone_name :: "string option"
  zone_ord :: "int option"
  zone_color :: "string option"

record trust_boundary =
  tb_id :: string
  tb_label :: "string option"
  tb_between_zones :: "string list"

record node =
  node_id :: string
  node_label :: "string option"
  node_zone :: "string option"
  node_type :: "string option"
  node_tags :: "string list"

record flow =
  flow_id :: "string option"
  flow_source :: "string option"
  flow_target :: "string option"
  flow_type :: "string option"
  flow_protocol :: "string option"
  flow_auth :: "string option"
  flow_data_class :: "string option"
  flow_label :: "string option"

record dsl =
  dsl_zones :: "zone list"
  dsl_nodes :: "node list"
  dsl_flows :: "flow list"
  dsl_trust_boundaries :: "trust_boundary list"

text \<open>\<^verbatim>\<open>z.get("order", 0)\<close>, the sort key of a zone.\<close>

definition order_key :: "zone \<Rightarrow> int" where
  "order_key z = (case zone_ord z of None \<Rightarrow> 0 | Some k \<Rightarrow> k)"

text \<open>\<^verbatim>\<open>sorted(zones, key=...)\<close> is stable, as \<open>sort_key\<close> is.\<close>

definition sorted_zones :: "zone list \<Rightarrow> zone list" where
  "sorted_zones zs = sort_key order_key zs"

section \<open>Zone id canonicalisation (\<^verbatim>\<open>dsl_render_validation.py\<close>)\<close>

definition MIN_ZONES :: int where "MIN_ZONES = 5"
definition MIN_NODES :: int where "MIN_NODES = 25"
definition MIN_FLOWS :: int where "MIN_FLOWS = 20"
definition MIN_NODES_HARD :: int where "MIN_NODES_HARD = 1"

definition ZONE_ALIASES :: "(string \<times> string) list" where
  "ZONE_ALIASES =
    [(''dmz_zone'', ''dmz''),
     (''dmz'', ''dmz''),
     (''internet'', ''internet''),
     (''external'', ''internet''),
     (''perimeter'', ''dmz''),
     (''internal'', ''internal''),
     (''on_prem'', ''on_prem''),
     (''on-prem'', ''on_prem''),
     (''onprem'', ''on_prem''),
     (''cloud'', ''cloud''),
     (''tenant'', ''tenant''),
     (''data'', ''data''),
     (''data_layer'', ''data''),
     (''identity'', ''identity''),
     (''vendor'', ''vendor'')]"

text \<open>
  Strings are byte strings here.  \<^verbatim>\<open>str.strip()\<close> and \<^verbatim>\<open>\s\<close> remove the ASCII
  white space characters (tab, line feed, vertical tab, form feed, carriage return, the
  separators 0x1c to 0x1f and the space); \<^verbatim>\<open>str.lower()\<close> maps \<^verbatim>\<open>A-Z\<close> to
  \<^verbatim>\<open>a-z\<close>.
\<close>

definition is_space :: "char \<Rightarrow> bool" where
  "is_space c = (let k = (of_char c :: nat) in (9 \<le> k \<and> k \<le> 13) \<or> (28 \<le> k \<and> k \<le> 32))"

definition lstrip :: "string \<Rightarrow> string" where
  "lstrip s = dropWhile is_space s"

definition rstrip :: "string \<Rightarrow> string" where
  "rstrip s = rev (dropWhile is_space (rev s))"

definition strip :: "string \<Rightarrow> string" where
  "strip s = rstrip (lstrip s)"

definition strip_char :: "char \<Rightarrow> string \<Rightarrow> string" where
  "strip_char c s = rev (dropWhile (\<lambda>x. x = c) (rev (dropWhile (\<lambda>x. x = c) s)))"

definition lower_char :: "char \<Rightarrow> char" where
  "lower_char c =
     (let k = (of_char c :: nat) in if 65 \<le> k \<and> k \<le> 90 then char_of (k + 32) else c)"

definition lower :: "string \<Rightarrow> string" where
  "lower s = map lower_char s"

definition is_lower_alnum :: "char \<Rightarrow> bool" where
  "is_lower_alnum c =
     (let k = (of_char c :: nat) in (97 \<le> k \<and> k \<le> 122) \<or> (48 \<le> k \<and> k \<le> 57))"

text \<open>\<^verbatim>\<open>re.sub(P+, "_", s)\<close>: every maximal run of characters in the class \<open>P\<close>
  becomes one underscore.\<close>

function sub_runs :: "(char \<Rightarrow> bool) \<Rightarrow> string \<Rightarrow> string" where
  "sub_runs P [] = []"
| "sub_runs P (c # cs) =
     (if P c then CHR ''_'' # sub_runs P (dropWhile P cs) else c # sub_runs P cs)"
  by pat_completeness auto
termination
  by (relation "measure (\<lambda>(P, s). length s)") (auto simp: length_dropWhile_le less_Suc_eq_le)

definition normalize_zone_id :: "string \<Rightarrow> string" where
  "normalize_zone_id raw =
     (let s = lower (strip raw);
          s = sub_runs (\<lambda>c. \<not> is_lower_alnum c) s;
          s = strip_char (CHR ''_'') (sub_runs (\<lambda>c. c = CHR ''_'') s)
      in if s = [] then ''zone'' else s)"

definition canonical_zone_id :: "string \<Rightarrow> string" where
  "canonical_zone_id raw =
     (let normalized = normalize_zone_id raw
      in case map_of ZONE_ALIASES normalized of Some c \<Rightarrow> c | None \<Rightarrow> normalized)"

section \<open>Density expansion (\<^verbatim>\<open>_expand_dsl_to_density\<close>)\<close>

text \<open>The three \<^verbatim>\<open>while\<close> loops, each with the variables it updates.\<close>

function add_zones ::
  "int \<Rightarrow> zone list \<Rightarrow> trust_boundary list \<Rightarrow> nat \<Rightarrow> zone list \<times> trust_boundary list" where
  "add_zones min_zones zones tbs next_z =
     (if int (length zones) < min_zones then
        (let zid = ''zone_'' @ str_nat next_z;
             zones' = zones @
               [\<lparr>zone_id = zid, zone_name = Some (''Zone '' @ str_nat (next_z + 1)),
                 zone_ord = Some (int next_z), zone_color = Some ''#e1d5e7''\<rparr>];
             tbs' = (if 2 \<le> length zones' then
                       tbs @ [\<lparr>tb_id = ''tb_'' @ str_nat next_z,
                               tb_label = Some (''TB'' @ str_nat (length tbs + 1)),
                               tb_between_zones =
                                 [zone_id (zones' ! (length zones' - 2)), zid]\<rparr>]
                     else tbs)
         in add_zones min_zones zones' tbs' (next_z + 1))
      else (zones, tbs))"
  by pat_completeness auto
termination
  by (relation "measure (\<lambda>(m, zs, tbs, n). nat (m - int (length zs)))") auto

declare add_zones.simps [simp del]

text \<open>
  \<^verbatim>\<open>zone_order[next_n % len(zone_order)]\<close> divides by zero when there is no zone at
  all.
\<close>

function add_nodes ::
  "int \<Rightarrow> zone list \<Rightarrow> node list \<Rightarrow> (string, node) dict \<Rightarrow> nat \<Rightarrow>
   py_error + (node list \<times> (string, node) dict)" where
  "add_nodes min_nodes zone_order nodes node_by_id next_n =
     (if int (length nodes) < min_nodes then
        (if length zone_order = 0 then Inl ZeroDivisionError
         else
           (let z = zone_order ! (next_n mod length zone_order);
                nid = ''node_'' @ str_nat next_n;
                n = \<lparr>node_id = nid, node_label = Some (''Component '' @ str_nat (next_n + 1)),
                     node_zone = Some (zone_id z), node_type = Some ''service'',
                     node_tags = []\<rparr>
            in add_nodes min_nodes zone_order (nodes @ [n]) (dict_set node_by_id nid n)
                 (next_n + 1)))
      else Inr (nodes, node_by_id))"
  by pat_completeness auto
termination
  by (relation "measure (\<lambda>(m, zo, ns, d, n). nat (m - int (length ns)))") auto

declare add_nodes.simps [simp del]

function add_flows :: "int \<Rightarrow> string list \<Rightarrow> flow list \<Rightarrow> nat \<Rightarrow> flow list" where
  "add_flows min_flows node_list flows next_f =
     (if int (length flows) < min_flows \<and> 2 \<le> length node_list then
        (let i = next_f mod (length node_list - 1);
             src = node_list ! i;
             tgt = node_list ! (i + 1)
         in add_flows min_flows node_list
              (flows @ [\<lparr>flow_id = Some (''flow_'' @ str_nat next_f), flow_source = Some src,
                          flow_target = Some tgt, flow_type = Some ''api'',
                          flow_protocol = Some ''HTTPS'', flow_auth = Some [],
                          flow_data_class = Some [], flow_label = None\<rparr>])
              (next_f + 1))
      else flows)"
  by pat_completeness auto
termination
  by (relation "measure (\<lambda>(m, nl, fs, n). nat (m - int (length fs)))") auto

declare add_flows.simps [simp del]

text \<open>
  The argument \<open>zone_ids\<close> is not used by the source either.  The sets
  \<^verbatim>\<open>zone_id_set\<close> and \<^verbatim>\<open>node_id_set\<close> of the source are filled and never read,
  so they have no counterpart here.  The lists of the argument are copied
  (\<^verbatim>\<open>list(...)\<close>) before they grow, and \<open>node_by_id\<close> is a dictionary that the
  caller builds for this call.
\<close>

definition expand_dsl_to_density ::
  "dsl \<Rightarrow> string list \<Rightarrow> (string, node) dict \<Rightarrow> int \<Rightarrow> int \<Rightarrow> int \<Rightarrow> py_error + dsl" where
  "expand_dsl_to_density d zone_ids node_by_id min_zones min_nodes min_flows =
     (let (zones, trust_boundaries) =
            add_zones min_zones (dsl_zones d) (dsl_trust_boundaries d) (length (dsl_zones d));
          zone_order = sorted_zones zones
      in case add_nodes min_nodes zone_order (dsl_nodes d) node_by_id (length (dsl_nodes d)) of
           Inl e \<Rightarrow> Inl e
         | Inr (nodes, node_by_id') \<Rightarrow>
             (let node_list = dict_keys node_by_id';
                  flows = add_flows min_flows node_list (dsl_flows d) (length (dsl_flows d))
              in Inr (d\<lparr>dsl_zones := zones, dsl_nodes := nodes, dsl_flows := flows,
                       dsl_trust_boundaries := trust_boundaries\<rparr>)))"

section \<open>Validation and preparation (\<^verbatim>\<open>validate_and_prepare_dsl\<close>)\<close>

text \<open>What the function writes to the logger.\<close>

datatype log_event =
    Flow_source_missing "string option" "string option"
  | Flow_target_missing "string option" "string option"
  | Zone_has_no_nodes string
  | Dsl_expanded nat nat nat

text \<open>
  The loop that gives every zone its canonical id: \<open>zone_id_map\<close> and
  \<open>seen_canonical\<close> are the two dictionaries of the source, \<open>new_zones\<close> the list
  it appends to.
\<close>

fun rename_zones ::
  "zone list \<Rightarrow> (string, string) dict \<Rightarrow> (string, nat) dict \<Rightarrow> zone list \<Rightarrow>
   (string, string) dict \<times> zone list" where
  "rename_zones [] zone_id_map seen_canonical new_zones = (zone_id_map, new_zones)"
| "rename_zones (z # zs) zone_id_map seen_canonical new_zones =
     (let c = canonical_zone_id (zone_id z) in
      case dict_get seen_canonical c of
        Some k \<Rightarrow>
          (let new_id = c @ ''_'' @ str_nat (k + 1)
           in rename_zones zs (dict_set zone_id_map (zone_id z) new_id)
                (dict_set seen_canonical c (k + 1)) (new_zones @ [z\<lparr>zone_id := new_id\<rparr>]))
      | None \<Rightarrow>
          rename_zones zs (dict_set zone_id_map (zone_id z) c)
            (dict_set seen_canonical c 0) (new_zones @ [z\<lparr>zone_id := c\<rparr>]))"

text \<open>
  The loop over the nodes assigns to \<^verbatim>\<open>n["zone"]\<close>: it changes the node dictionaries
  of the caller.  The function returns the nodes as they are after the loop, and the
  messages collected.
\<close>

definition invalid_zone_msg :: "string \<Rightarrow> string \<Rightarrow> string" where
  "invalid_zone_msg nid zid =
     ''Node '' @ [CHR 0x27] @ nid @ [CHR 0x27] @ '' references invalid zone '' @
     [CHR 0x27] @ zid @ [CHR 0x27] @ ''.''"

definition remapped_zone :: "(string, string) dict \<Rightarrow> node \<Rightarrow> string" where
  "remapped_zone zone_id_map n =
     (let zid = (case node_zone n of None \<Rightarrow> [] | Some z \<Rightarrow> z)
      in case dict_get zone_id_map zid of None \<Rightarrow> zid | Some z' \<Rightarrow> z')"

fun remap_nodes ::
  "(string, string) dict \<Rightarrow> string list \<Rightarrow> node list \<Rightarrow> node list \<times> string list" where
  "remap_nodes zone_id_map zone_ids [] = ([], [])"
| "remap_nodes zone_id_map zone_ids (n # ns) =
     (let z' = remapped_zone zone_id_map n;
          n' = n\<lparr>node_zone := Some z'\<rparr>;
          errs = (if z' \<notin> set zone_ids then [invalid_zone_msg (node_id n') z'] else []);
          (ns', errs') = remap_nodes zone_id_map zone_ids ns
      in (n' # ns', errs @ errs'))"

definition flow_warnings :: "string list \<Rightarrow> flow \<Rightarrow> log_event list" where
  "flow_warnings valid_node_ids f =
     (if (case flow_source f of None \<Rightarrow> True | Some s \<Rightarrow> s \<notin> set valid_node_ids)
      then [Flow_source_missing (flow_id f) (flow_source f)] else []) @
     (if (case flow_target f of None \<Rightarrow> True | Some t \<Rightarrow> t \<notin> set valid_node_ids)
      then [Flow_target_missing (flow_id f) (flow_target f)] else [])"

fun count_nodes_per_zone ::
  "node list \<Rightarrow> (string, nat) dict \<Rightarrow> py_error + (string, nat) dict" where
  "count_nodes_per_zone [] d = Inr d"
| "count_nodes_per_zone (n # ns) d =
     (case node_zone n of
        None \<Rightarrow> Inl (KeyError ''zone'')
      | Some z \<Rightarrow>
          count_nodes_per_zone ns
            (dict_set d z ((case dict_get d z of None \<Rightarrow> 0 | Some c \<Rightarrow> c) + 1)))"

definition hard_minimum_msg :: "int \<Rightarrow> nat \<Rightarrow> string" where
  "hard_minimum_msg min_nodes_hard found =
     ''At least '' @ str_int min_nodes_hard @ '' node(s) are required (found '' @
     str_nat found @ '').''"

text \<open>
  One call of \<^verbatim>\<open>validate_and_prepare_dsl\<close>: the pair it returns, what it logs, and
  the dictionary of the caller as the call leaves it.
\<close>

record call_result =
  returned :: "dsl option \<times> string list"
  logged :: "log_event list"
  caller_dsl :: dsl

definition validate_and_prepare_dsl_call ::
  "dsl \<Rightarrow> int \<Rightarrow> int \<Rightarrow> int \<Rightarrow> int \<Rightarrow> bool \<Rightarrow> py_error + call_result" where
  "validate_and_prepare_dsl_call d min_zones min_nodes min_flows min_nodes_hard
       expand_to_meet_density =
     (let zones = sorted_zones (dsl_zones d);
          nodes = dsl_nodes d;
          flows = dsl_flows d;
          trust_boundaries = dsl_trust_boundaries d
      in
      if zones = [] \<and> \<not> expand_to_meet_density then
        Inr \<lparr>returned = (None, [''At least one zone is required.'']), logged = [],
             caller_dsl = d\<rparr>
      else if zones = [] \<and> expand_to_meet_density then
        (case expand_dsl_to_density
                (d\<lparr>dsl_zones := [], dsl_nodes := [], dsl_flows := [],
                   dsl_trust_boundaries := []\<rparr>)
                [] [] min_zones min_nodes min_flows of
           Inl e \<Rightarrow> Inl e
         | Inr d' \<Rightarrow> Inr \<lparr>returned = (Some d', []), logged = [], caller_dsl = d\<rparr>)
      else
        (let (zone_id_map, new_zones) = rename_zones zones [] [] [];
             zones = new_zones;
             zone_ids = map zone_id zones;
             (nodes, errors) = remap_nodes zone_id_map zone_ids nodes;
             caller = d\<lparr>dsl_nodes := nodes\<rparr>
         in
         if errors \<noteq> [] then
           Inr \<lparr>returned = (None, errors), logged = [], caller_dsl = caller\<rparr>
         else if int (length nodes) < min_nodes_hard then
           Inr \<lparr>returned = (None, [hard_minimum_msg min_nodes_hard (length nodes)]),
                logged = [], caller_dsl = caller\<rparr>
         else
           (let valid_node_ids = map node_id nodes;
                log1 = concat (map (flow_warnings valid_node_ids) flows)
            in case count_nodes_per_zone nodes (dict_from (map (\<lambda>z. (zone_id z, 0)) zones)) of
                 Inl e \<Rightarrow> Inl e
               | Inr nodes_per_zone \<Rightarrow>
                   (let log2 = map (\<lambda>(zid, count). Zone_has_no_nodes zid)
                                 (filter (\<lambda>(zid, count). count = 0) nodes_per_zone)
                    in
                    if expand_to_meet_density \<and>
                       (int (length zones) < min_zones \<or> int (length nodes) < min_nodes \<or>
                        int (length flows) < min_flows)
                    then
                      (case expand_dsl_to_density
                              (d\<lparr>dsl_zones := zones, dsl_nodes := nodes, dsl_flows := flows,
                                 dsl_trust_boundaries := trust_boundaries\<rparr>)
                              (map zone_id zones)
                              (dict_from (map (\<lambda>n. (node_id n, n)) nodes))
                              min_zones min_nodes min_flows of
                         Inl e \<Rightarrow> Inl e
                       | Inr d' \<Rightarrow>
                           Inr \<lparr>returned = (Some d', []),
                                logged = log1 @ log2 @
                                  [Dsl_expanded (length (dsl_zones d')) (length (dsl_nodes d'))
                                     (length (dsl_flows d'))],
                                caller_dsl = caller\<rparr>)
                    else
                      Inr \<lparr>returned =
                             (Some (d\<lparr>dsl_zones := zones, dsl_nodes := nodes,
                                      dsl_flows := flows,
                                      dsl_trust_boundaries := trust_boundaries\<rparr>), []),
                           logged = log1 @ log2, caller_dsl = caller\<rparr>))))"

text \<open>The value that \<^verbatim>\<open>validate_and_prepare_dsl\<close> returns.\<close>

definition validate_and_prepare_dsl ::
  "dsl \<Rightarrow> int \<Rightarrow> int \<Rightarrow> int \<Rightarrow> int \<Rightarrow> bool \<Rightarrow> py_error + (dsl option \<times> string list)" where
  "validate_and_prepare_dsl d min_zones min_nodes min_flows min_nodes_hard
       expand_to_meet_density =
     (case validate_and_prepare_dsl_call d min_zones min_nodes min_flows min_nodes_hard
             expand_to_meet_density of
        Inl e \<Rightarrow> Inl e
      | Inr r \<Rightarrow> Inr (returned r))"

section \<open>The element tree and its serialisation\<close>

text \<open>
  What the renderer uses of \<^verbatim>\<open>xml.etree.ElementTree\<close>: an element has a tag, its
  attributes in insertion order and its children; no element of the renderer has text.
  \<open>tostring\<close> is \<^verbatim>\<open>ET.tostring(e, encoding="unicode", method="xml")\<close> of the standard
  library: it writes no declaration, writes tags and attribute names as they are,
  escapes attribute values, and closes an element without children with
  \<^verbatim>\<open> />\<close>.
\<close>

datatype xml_elem = Elem (xml_tag: string) (xml_attrib: "(string, string) dict")
  (xml_children: "xml_elem list")

definition escape_char :: "char \<Rightarrow> string" where
  "escape_char c =
     (if c = CHR ''&'' then ''&amp;''
      else if c = CHR ''<'' then ''&lt;''
      else if c = CHR ''>'' then ''&gt;''
      else if c = CHR 0x22 then ''&quot;''
      else if c = CHR 0x0D then ''&#13;''
      else if c = CHR 0x0A then ''&#10;''
      else if c = CHR 0x09 then ''&#09;''
      else [c])"

definition escape_attrib :: "string \<Rightarrow> string" where
  "escape_attrib s = concat (map escape_char s)"

definition attrib_text :: "string \<times> string \<Rightarrow> string" where
  "attrib_text kv = '' '' @ fst kv @ [CHR ''='', CHR 0x22] @ escape_attrib (snd kv) @ [CHR 0x22]"

fun tostring :: "xml_elem \<Rightarrow> string" where
  "tostring (Elem t attrs cs) =
     ''<'' @ t @ concat (map attrib_text attrs) @
     (if cs \<noteq> [] then ''>'' @ concat (map tostring cs) @ ''</'' @ t @ ''>'' else '' />'')"

subsection \<open>Substring search (\<^verbatim>\<open>str.count\<close>, \<^verbatim>\<open>str.index\<close>, \<^verbatim>\<open>in\<close>)\<close>

text \<open>\<^verbatim>\<open>s.count(p)\<close> counts the occurrences of \<open>p\<close> from the left, without overlap.\<close>

function count_sub :: "string \<Rightarrow> string \<Rightarrow> nat" where
  "count_sub p s =
     (if p = [] then length s + 1
      else if s = [] then 0
      else if prefix p s then 1 + count_sub p (drop (length p) s)
      else count_sub p (tl s))"
  by pat_completeness auto
termination
  by (relation "measure (\<lambda>(p, s). length s)") auto

declare count_sub.simps [simp del]

text \<open>\<^verbatim>\<open>s.index(p)\<close>: the offset of the first occurrence, \<open>None\<close> where Python raises
  \<^verbatim>\<open>ValueError\<close>.\<close>

fun find_sub :: "string \<Rightarrow> string \<Rightarrow> nat option" where
  "find_sub p [] = (if p = [] then Some 0 else None)"
| "find_sub p (c # cs) =
     (if prefix p (c # cs) then Some 0 else map_option Suc (find_sub p cs))"

definition contains_sub :: "string \<Rightarrow> string \<Rightarrow> bool" where
  "contains_sub p s = (find_sub p s \<noteq> None)"

text \<open>
  \<^verbatim>\<open>re.sub(r"<\?xml[^>]*\?>\s*", "", s)\<close>.  A match at the head of \<open>s\<close> is
  \<^verbatim>\<open><?xml\<close>, then the characters up to the next \<^verbatim>\<open>>\<close>, the last of which has to
  be \<^verbatim>\<open>?\<close>, then that \<^verbatim>\<open>>\<close> and the white space after it.
\<close>

definition decl_match :: "string \<Rightarrow> string option" where
  "decl_match s =
     (if prefix ''<?xml'' s then
        (let body = drop 5 s;
             run = takeWhile (\<lambda>c. c \<noteq> CHR ''>'') body;
             after = dropWhile (\<lambda>c. c \<noteq> CHR ''>'') body
         in if after \<noteq> [] \<and> run \<noteq> [] \<and> last run = CHR ''?''
            then Some (dropWhile is_space (tl after)) else None)
      else None)"

function strip_decls :: "string \<Rightarrow> string" where
  "strip_decls s =
     (if s = [] then []
      else case decl_match s of
             Some r \<Rightarrow> strip_decls r
           | None \<Rightarrow> hd s # strip_decls (tl s))"
  by pat_completeness auto
termination
proof (relation "measure length")
  show "wf (measure length)" by simp
next
  fix s r
  assume "s \<noteq> []" and a: "decl_match s = Some r"
  define body where "body = drop 5 s"
  define after where "after = dropWhile (\<lambda>c. c \<noteq> CHR ''>'') body"
  from a have r: "r = dropWhile is_space (tl after)" and ne: "after \<noteq> []"
    by (auto simp: decl_match_def Let_def body_def after_def split: if_splits)
  have "length r \<le> length (tl after)"
    unfolding r by (rule length_dropWhile_le)
  also have "\<dots> < length after"
    using ne by (cases after) auto
  also have "\<dots> \<le> length body"
    unfolding after_def by (rule length_dropWhile_le)
  also have "\<dots> \<le> length s"
    unfolding body_def by simp
  finally show "(r, s) \<in> measure length" by simp
next
  fix s
  assume "s \<noteq> []"
  then show "(tl s, s) \<in> measure length" by (cases s) auto
qed

declare strip_decls.simps [simp del]

section \<open>The renderer (\<^verbatim>\<open>dsl_to_drawio.py\<close>)\<close>

definition CANVAS_WIDTH :: int where "CANVAS_WIDTH = 1400"
definition ZONE_HEADER_HEIGHT :: int where "ZONE_HEADER_HEIGHT = 32"
definition NODE_W :: int where "NODE_W = 160"
definition NODE_H :: int where "NODE_H = 60"
definition GAP_X :: int where "GAP_X = 40"
definition GAP_Y :: int where "GAP_Y = 40"
definition PADDING :: int where "PADDING = 40"
definition TB_HEIGHT :: int where "TB_HEIGHT = 24"
definition LEGEND_HEIGHT :: int where "LEGEND_HEIGHT = 160"
definition LEGEND_WIDTH :: int where "LEGEND_WIDTH = 400"

definition STYLE_APP :: string where
  "STYLE_APP = ''rounded=1;whiteSpace=wrap;html=1;fillColor=#d5e8d4;strokeColor=#82b366;strokeWidth=1;''"
definition STYLE_SERVICE :: string where
  "STYLE_SERVICE = ''rounded=1;whiteSpace=wrap;html=1;fillColor=#d5e8d4;strokeColor=#82b366;strokeWidth=1;''"
definition STYLE_API :: string where
  "STYLE_API = ''shape=hexagon;perimeter=hexagonPerimeter2;whiteSpace=wrap;html=1;fillColor=#dae8fc;strokeColor=#6c8ebf;strokeWidth=1;''"
definition STYLE_DATA_STORE :: string where
  "STYLE_DATA_STORE = ''shape=cylinder3;whiteSpace=wrap;html=1;boundedLbl=1;backgroundOutline=1;size=15;fillColor=#fff2cc;strokeColor=#d6b656;strokeWidth=1;''"
definition STYLE_IDENTITY :: string where
  "STYLE_IDENTITY = ''shape=ellipse;whiteSpace=wrap;html=1;fillColor=#e1d5e7;strokeColor=#9673a6;strokeWidth=1;''"
definition STYLE_SECURITY :: string where
  "STYLE_SECURITY = ''shape=shield;whiteSpace=wrap;html=1;fillColor=#f8cecc;strokeColor=#b85450;strokeWidth=2;''"
definition STYLE_VENDOR :: string where
  "STYLE_VENDOR = ''rounded=1;whiteSpace=wrap;html=1;fillColor=#f5f5f5;strokeColor=#666666;dashed=1;strokeWidth=1;''"
definition STYLE_EXTERNAL :: string where
  "STYLE_EXTERNAL = ''rounded=1;whiteSpace=wrap;html=1;fillColor=#f5f5f5;strokeColor=#666666;dashed=1;strokeWidth=1;''"
definition STYLE_EDGE_SOLID :: string where
  "STYLE_EDGE_SOLID = ''endArrow=block;html=1;rounded=0;curved=0;orthogonalLoop=1;exitX=1;exitY=0.5;exitDx=0;exitDy=0;entryX=0;entryY=0.5;entryDx=0;entryDy=0;strokeColor=#6c8ebf;strokeWidth=2;''"
definition STYLE_EDGE_DASHED :: string where
  "STYLE_EDGE_DASHED = ''endArrow=block;html=1;rounded=0;dashed=1;curved=0;orthogonalLoop=1;exitX=1;exitY=0.5;exitDx=0;exitDy=0;entryX=0;entryY=0.5;entryDx=0;entryDy=0;strokeColor=#999999;strokeWidth=1;''"
definition STYLE_TB :: string where
  "STYLE_TB = ''shape=rect;fillColor=none;strokeColor=#b85450;strokeWidth=2;dashed=1;html=1;''"
definition STYLE_LEGEND :: string where
  "STYLE_LEGEND = ''rounded=0;whiteSpace=wrap;html=1;fillColor=#f5f5f5;strokeColor=#666666;align=left;verticalAlign=top;spacingLeft=8;spacingTop=6;fontSize=11;''"

definition node_style :: "string \<Rightarrow> string" where
  "node_style ty =
     (case map_of
        [(''app'', STYLE_APP), (''service'', STYLE_SERVICE), (''api'', STYLE_API),
         (''data_store'', STYLE_DATA_STORE), (''identity'', STYLE_IDENTITY),
         (''security_control'', STYLE_SECURITY), (''vendor'', STYLE_VENDOR),
         (''external'', STYLE_EXTERNAL)] ty of
        Some s \<Rightarrow> s
      | None \<Rightarrow> STYLE_APP)"

definition flow_style :: "string \<Rightarrow> string" where
  "flow_style ft = (if ft \<in> set [''log'', ''telemetry''] then STYLE_EDGE_DASHED else STYLE_EDGE_SOLID)"

text \<open>\<^verbatim>\<open>x or ""\<close> for an optional string.\<close>

definition or_empty :: "string option \<Rightarrow> string" where
  "or_empty x = (case x of None \<Rightarrow> [] | Some s \<Rightarrow> s)"

fun join :: "string \<Rightarrow> string list \<Rightarrow> string" where
  "join sep [] = []"
| "join sep [x] = x"
| "join sep (x # y # ys) = x @ sep @ join sep (y # ys)"

definition flow_label_text :: "flow \<Rightarrow> string" where
  "flow_label_text f =
     (if or_empty (flow_label f) \<noteq> [] then or_empty (flow_label f)
      else
        (let parts = [or_empty (flow_protocol f), or_empty (flow_auth f),
                      or_empty (flow_data_class f)];
             s = strip (join '' | '' (filter (\<lambda>p. p \<noteq> []) parts))
         in if s = [] then '' '' else s))"

definition next_id :: "string \<Rightarrow> nat \<Rightarrow> string \<times> nat" where
  "next_id p c = (p @ str_nat c, c + 1)"

text \<open>
  Coordinates are Python numbers.  The running offset \<^verbatim>\<open>y_cursor\<close> starts as
  \<^verbatim>\<open>0.0\<close>, so every value derived from it is a float with an integral value;
  \<^verbatim>\<open>f"{y}"\<close> prints such a float (below \<open>10\<^sup>1\<^sup>6\<close>) as its digits followed by
  \<^verbatim>\<open>.0\<close>.
\<close>

datatype pynum = PyInt int | PyFloat int

fun fmt_num :: "pynum \<Rightarrow> string" where
  "fmt_num (PyInt i) = str_int i"
| "fmt_num (PyFloat i) = str_int i @ ''.0''"

text \<open>\<^verbatim>\<open>_add_cell\<close> without its first argument: the caller appends the cell that is
  returned to the children of \<^verbatim>\<open>root\<close>.\<close>

definition add_cell ::
  "string \<Rightarrow> string \<Rightarrow> string \<Rightarrow> string \<Rightarrow> bool \<Rightarrow> bool \<Rightarrow> pynum \<Rightarrow> pynum \<Rightarrow> pynum \<Rightarrow> pynum \<Rightarrow>
   string \<Rightarrow> string option \<Rightarrow> string option \<Rightarrow> xml_elem" where
  "add_cell cell_id parent_id val style vertex edge x y width height relative source target =
     (let a = [(''id'', cell_id), (''parent'', parent_id)];
          a = (if val \<noteq> [] then dict_set a ''value'' val else a);
          a = (if style \<noteq> [] then dict_set a ''style'' style else a);
          a = (if vertex then dict_set a ''vertex'' ''1'' else a);
          a = (if edge then dict_set a ''edge'' ''1'' else a);
          geom = Elem ''mxGeometry''
                   (dict_set [(''x'', fmt_num x), (''y'', fmt_num y), (''width'', fmt_num width),
                              (''height'', fmt_num height), (''relative'', relative)]
                      ''as'' ''geometry'') [];
          a = (case source of None \<Rightarrow> a | Some s \<Rightarrow> dict_set a ''source'' s);
          a = (case target of None \<Rightarrow> a | Some t \<Rightarrow> dict_set a ''target'' t)
      in Elem ''mxCell'' a [geom])"

subsection \<open>Grid layout\<close>

type_synonym geometry = "int \<times> int \<times> int \<times> int"

definition zone_width :: int where
  "zone_width = CANVAS_WIDTH"

definition content_width :: int where
  "content_width = zone_width - 2 * PADDING"

text \<open>\<^verbatim>\<open>max(1, int((content_width + GAP_X) / (NODE_W + GAP_X)))\<close>: both numbers are
  positive, so truncating the quotient is integer division.\<close>

definition cols_max :: int where
  "cols_max = max 1 ((content_width + GAP_X) div (NODE_W + GAP_X))"

text \<open>\<^verbatim>\<open>math.ceil(n_count / cols_max) if n_count else 1\<close>, with the quotient rounded up
  exactly (the float quotient is exact enough for every list that fits in memory).\<close>

definition zone_rows :: "nat \<Rightarrow> int" where
  "zone_rows n_count = (if n_count \<noteq> 0 then - ((- int n_count) div cols_max) else 1)"

definition zone_height :: "nat \<Rightarrow> int" where
  "zone_height n_count =
     (let required_content_h = PADDING + zone_rows n_count * (NODE_H + GAP_Y)
      in ZONE_HEADER_HEIGHT + required_content_h)"

text \<open>\<^verbatim>\<open>nodes_in_zone.setdefault(zid, []).append(n)\<close> for every node.\<close>

fun group_nodes :: "node list \<Rightarrow> (string, node list) dict \<Rightarrow> (string, node list) dict" where
  "group_nodes [] nodes_in_zone = nodes_in_zone"
| "group_nodes (n # ns) nodes_in_zone =
     (let zid = or_empty (node_zone n)
      in group_nodes ns
           (dict_set nodes_in_zone zid
              ((case dict_get nodes_in_zone zid of None \<Rightarrow> [] | Some l \<Rightarrow> l) @ [n])))"

definition nodes_of_zone :: "(string, node list) dict \<Rightarrow> string \<Rightarrow> node list" where
  "nodes_of_zone nodes_in_zone zid =
     (case dict_get nodes_in_zone zid of None \<Rightarrow> [] | Some l \<Rightarrow> l)"

fun zone_heights_loop ::
  "zone list \<Rightarrow> (string, node list) dict \<Rightarrow> (string, int) dict \<Rightarrow> (string, int) dict" where
  "zone_heights_loop [] nodes_in_zone zone_heights = zone_heights"
| "zone_heights_loop (z # zs) nodes_in_zone zone_heights =
     (let zid = zone_id z;
          n_list = nodes_of_zone nodes_in_zone zid;
          n_count = length n_list
      in zone_heights_loop zs nodes_in_zone (dict_set zone_heights zid (zone_height n_count)))"

fun zone_geometry_loop ::
  "zone list \<Rightarrow> (string, int) dict \<Rightarrow> int \<Rightarrow> (string, geometry) dict \<Rightarrow>
   py_error + (int \<times> (string, geometry) dict)" where
  "zone_geometry_loop [] zone_heights y_cursor zone_geometry = Inr (y_cursor, zone_geometry)"
| "zone_geometry_loop (z # zs) zone_heights y_cursor zone_geometry =
     (let zid = zone_id z in
      case dict_get zone_heights zid of
        None \<Rightarrow> Inl (KeyError zid)
      | Some h \<Rightarrow>
          zone_geometry_loop zs zone_heights (y_cursor + h)
            (dict_set zone_geometry zid (0, y_cursor, zone_width, h)))"

subsection \<open>Cells\<close>

text \<open>
  Each loop that emits cells takes the counter \<^verbatim>\<open>ctr\<close>, the children of
  \<^verbatim>\<open>root\<close> written so far and the dictionary it fills, and returns them updated.
\<close>

definition zone_cell_style :: "string \<Rightarrow> string" where
  "zone_cell_style fill =
     ''swimlane;horizontal=1;startSize='' @ str_int ZONE_HEADER_HEIGHT @ '';fillColor='' @ fill @
     '';strokeColor=#6c8ebf;fontStyle=1;fontSize=12;whiteSpace=wrap;html=1;''"

fun zone_cells_loop ::
  "zone list \<Rightarrow> (string, geometry) dict \<Rightarrow> nat \<Rightarrow> xml_elem list \<Rightarrow> (string, string) dict \<Rightarrow>
   py_error + (nat \<times> xml_elem list \<times> (string, string) dict)" where
  "zone_cells_loop [] zone_geometry ctr cells zone_cell_ids = Inr (ctr, cells, zone_cell_ids)"
| "zone_cells_loop (z # zs) zone_geometry ctr cells zone_cell_ids =
     (let zid = zone_id z in
      case dict_get zone_geometry zid of
        None \<Rightarrow> Inl (KeyError zid)
      | Some (x, y, w, h) \<Rightarrow>
          (let (cell_id, ctr') = next_id ''zone-'' ctr;
               fill = strip (if or_empty (zone_color z) \<noteq> [] then or_empty (zone_color z)
                             else ''#dae8fc'');
               style = zone_cell_style fill;
               val = (if or_empty (zone_name z) \<noteq> [] then or_empty (zone_name z) else zid);
               cell = add_cell cell_id ''1'' val style True False
                        (PyInt x) (PyFloat y) (PyInt w) (PyInt h) ''0'' None None
           in zone_cells_loop zs zone_geometry ctr' (cells @ [cell])
                (dict_set zone_cell_ids zid cell_id)))"

definition node_x :: "nat \<Rightarrow> nat \<Rightarrow> int" where
  "node_x cols i = PADDING + int (i mod cols) * (NODE_W + GAP_X)"

definition node_y :: "nat \<Rightarrow> nat \<Rightarrow> int" where
  "node_y cols i = PADDING + int (i div cols) * (NODE_H + GAP_Y)"

text \<open>\<^verbatim>\<open>max(1, min(cols_max, len(n_list)) if n_list else 1)\<close>\<close>

definition zone_cols :: "nat \<Rightarrow> nat" where
  "zone_cols n = nat (max 1 (if n \<noteq> 0 then min cols_max (int n) else 1))"

text \<open>The inner loop over \<^verbatim>\<open>enumerate(n_list)\<close>, with its two assertions.\<close>

fun place_nodes ::
  "(nat \<times> node) list \<Rightarrow> nat \<Rightarrow> int \<Rightarrow> int \<Rightarrow> string \<Rightarrow> nat \<Rightarrow> xml_elem list \<Rightarrow>
   (string, string) dict \<Rightarrow> py_error + (nat \<times> xml_elem list \<times> (string, string) dict)" where
  "place_nodes [] cols zone_content_w zone_content_h parent_id ctr cells node_cell_ids =
     Inr (ctr, cells, node_cell_ids)"
| "place_nodes ((i, n) # rest) cols zone_content_w zone_content_h parent_id ctr cells
       node_cell_ids =
     (let x = node_x cols i;
          y = node_y cols i
      in
      if \<not> (x \<ge> 0 \<and> y \<ge> 0) then Inl (AssertionError ''node x,y must be >= 0'')
      else if \<not> (x + NODE_W \<le> zone_content_w \<and> y + NODE_H \<le> zone_content_h)
      then Inl (AssertionError ''node must be inside zone'')
      else
        (let (cell_id, ctr') = next_id ''node-'' ctr;
             style = node_style (case node_type n of None \<Rightarrow> ''app'' | Some t \<Rightarrow> t);
             val = (case node_label n of None \<Rightarrow> node_id n | Some l \<Rightarrow> l);
             cell = add_cell cell_id parent_id val style True False
                      (PyInt x) (PyInt y) (PyInt NODE_W) (PyInt NODE_H) ''1'' None None
         in place_nodes rest cols zone_content_w zone_content_h parent_id ctr'
              (cells @ [cell]) (dict_set node_cell_ids (node_id n) cell_id)))"

fun node_cells_loop ::
  "zone list \<Rightarrow> (string, string) dict \<Rightarrow> (string, geometry) dict \<Rightarrow> (string, node list) dict \<Rightarrow>
   nat \<Rightarrow> xml_elem list \<Rightarrow> (string, string) dict \<Rightarrow>
   py_error + (nat \<times> xml_elem list \<times> (string, string) dict)" where
  "node_cells_loop [] zone_cell_ids zone_geometry nodes_in_zone ctr cells node_cell_ids =
     Inr (ctr, cells, node_cell_ids)"
| "node_cells_loop (z # zs) zone_cell_ids zone_geometry nodes_in_zone ctr cells node_cell_ids =
     (let zid = zone_id z in
      case dict_get zone_cell_ids zid of
        None \<Rightarrow> Inl (KeyError zid)
      | Some parent_id \<Rightarrow>
          (case dict_get zone_geometry zid of
             None \<Rightarrow> Inl (KeyError zid)
           | Some (zx, zy, zw, zh) \<Rightarrow>
               (let zone_content_w = zw;
                    zone_content_h = zh - ZONE_HEADER_HEIGHT;
                    n_list = nodes_of_zone nodes_in_zone zid;
                    cols = zone_cols (length n_list)
                in case place_nodes (enumerate 0 n_list) cols zone_content_w zone_content_h
                          parent_id ctr cells node_cell_ids of
                     Inl e \<Rightarrow> Inl e
                   | Inr (ctr', cells', node_cell_ids') \<Rightarrow>
                       node_cells_loop zs zone_cell_ids zone_geometry nodes_in_zone ctr' cells'
                         node_cell_ids')))"

definition tb_label_style :: string where
  "tb_label_style = ''text;html=1;strokeColor=none;fillColor=none;align=center;verticalAlign=middle;fontSize=10;fontColor=#b85450;''"

fun tb_cells_loop ::
  "(nat \<times> trust_boundary) list \<Rightarrow> (string, geometry) dict \<Rightarrow> nat \<Rightarrow> xml_elem list \<Rightarrow>
   nat \<times> xml_elem list" where
  "tb_cells_loop [] zone_geometry ctr cells = (ctr, cells)"
| "tb_cells_loop ((i, tb) # rest) zone_geometry ctr cells =
     (let between = tb_between_zones tb in
      if length between < 2 then tb_cells_loop rest zone_geometry ctr cells
      else
        (let z0 = between ! 0; z1 = between ! 1 in
         case (dict_get zone_geometry z0, dict_get zone_geometry z1) of
           (Some (x0, y0, w0, h0), Some g1) \<Rightarrow>
             (let y_line = y0 + h0;
                  label = strip (if or_empty (tb_label tb) \<noteq> [] then or_empty (tb_label tb)
                                 else ''TB'' @ str_nat (i + 1));
                  (cell_id, ctr1) = next_id ''tb-'' ctr;
                  line = add_cell cell_id ''1'' label STYLE_TB True False
                           (PyInt 0) (PyFloat y_line) (PyInt CANVAS_WIDTH) (PyInt 3) ''0''
                           None None;
                  (lbl_id, ctr2) = next_id ''tblbl-'' ctr1;
                  lbl = add_cell lbl_id ''1'' label tb_label_style True False
                          (PyInt (CANVAS_WIDTH div 2 - 40)) (PyFloat (y_line - 16)) (PyInt 80)
                          (PyInt 16) ''0'' None None
              in tb_cells_loop rest zone_geometry ctr2 (cells @ [line, lbl]))
         | _ \<Rightarrow> tb_cells_loop rest zone_geometry ctr cells))"

text \<open>A flow whose source or target has no cell is skipped (and logged).\<close>

fun flow_cells_loop ::
  "flow list \<Rightarrow> (string, string) dict \<Rightarrow> nat \<Rightarrow> xml_elem list \<Rightarrow> nat \<times> xml_elem list" where
  "flow_cells_loop [] node_cell_ids ctr cells = (ctr, cells)"
| "flow_cells_loop (f # fs) node_cell_ids ctr cells =
     (case (case flow_source f of None \<Rightarrow> None | Some s \<Rightarrow> dict_get node_cell_ids s,
            case flow_target f of None \<Rightarrow> None | Some t \<Rightarrow> dict_get node_cell_ids t) of
        (Some src_cell, Some tgt_cell) \<Rightarrow>
          (let (fid, ctr') = next_id ''edge-'' ctr;
               style = flow_style (case flow_type f of None \<Rightarrow> ''generic'' | Some t \<Rightarrow> t);
               label = flow_label_text f;
               cell = add_cell fid ''1'' label style False True
                        (PyInt 0) (PyInt 0) (PyInt 0) (PyInt 0) ''1''
                        (Some src_cell) (Some tgt_cell)
           in flow_cells_loop fs node_cell_ids ctr' (cells @ [cell]))
      | _ \<Rightarrow> flow_cells_loop fs node_cell_ids ctr cells)"

definition bullet :: string where
  "bullet = [CHR 0xE2, CHR 0x80, CHR 0xA2]"

definition legend_text :: string where
  "legend_text =
     ''Legend&#xa;'' @
     bullet @ '' Solid line: API / Auth / Data flow&#xa;'' @
     bullet @ '' Dashed line: Log / Telemetry&#xa;'' @
     bullet @ '' Red dashed: Trust boundary&#xa;'' @
     bullet @ '' Rounded rect: App/Service | Hexagon: API | Cylinder: Data store&#xa;'' @
     bullet @ '' Ellipse: Identity | Shield: Control | Dashed border: External/Vendor''"

subsection \<open>Serialisation with one declaration\<close>

definition xml_declaration :: string where
  "xml_declaration = ''<?xml version='' @ [CHR 0x22] @ ''1.0'' @ [CHR 0x22] @ '' encoding='' @
     [CHR 0x22] @ ''UTF-8'' @ [CHR 0x22] @ ''?>'' @ [CHR 0x0A]"

definition serialize_xml_safe :: "xml_elem \<Rightarrow> py_error + string" where
  "serialize_xml_safe root_elem =
     (let rough = tostring root_elem;
          out = xml_declaration @ rough;
          out' =
            (if count_sub ''<?xml'' out > 1 then
               (case find_sub ''<?xml'' out of
                  None \<Rightarrow> Inl (ValueError ''substring not found'')
                | Some first \<Rightarrow>
                    (case find_sub ''?>'' (drop first out) of
                       None \<Rightarrow> Inl (ValueError ''substring not found'')
                     | Some k \<Rightarrow>
                         (let second = first + k + 2;
                              rest = lstrip (drop second out)
                          in Inr (take second out @ [CHR 0x0A] @ strip_decls rest))))
             else Inr out)
      in case out' of
           Inl e \<Rightarrow> Inl e
         | Inr out \<Rightarrow>
             if \<not> count_sub ''<?xml'' out \<le> 1
             then Inl (AssertionError ''output must contain at most one XML declaration'')
             else if count_sub ''<?xml'' out = 1 \<and> find_sub ''<?xml'' out \<noteq> Some 0
             then Inl (AssertionError [])
             else if \<not> contains_sub ''<mxfile'' out then Inl (AssertionError [])
             else Inr out)"

subsection \<open>\<^verbatim>\<open>dsl_to_drawio\<close>\<close>

definition document :: "xml_elem list \<Rightarrow> xml_elem" where
  "document cells =
     Elem ''mxfile''
       [(''host'', ''app.diagrams.net''), (''modified'', ''2025-01-01T00:00:00.000Z'')]
       [Elem ''diagram''
          [(''id'', ''security-arch''), (''name'', ''Security Reference Architecture'')]
          [Elem ''mxGraphModel''
             [(''dx'', ''1422''), (''dy'', ''794''), (''grid'', ''1''), (''gridSize'', ''10''),
              (''guides'', ''1''), (''tooltips'', ''1''), (''connect'', ''1''),
              (''arrows'', ''1''), (''fold'', ''1''), (''page'', ''1''), (''pageScale'', ''1''),
              (''pageWidth'', ''1600''), (''pageHeight'', ''3200''), (''math'', ''0''),
              (''shadow'', ''0'')]
             [Elem ''root'' [] cells]]]"

definition initial_cells :: "xml_elem list" where
  "initial_cells = [Elem ''mxCell'' [(''id'', ''0'')] [],
                    Elem ''mxCell'' [(''id'', ''1''), (''parent'', ''0'')] []]"

text \<open>The renderer after validation, on the prepared graph.\<close>

definition render :: "dsl \<Rightarrow> py_error + string" where
  "render d =
     (let zones = sorted_zones (dsl_zones d);
          trust_boundaries = dsl_trust_boundaries d;
          nodes = dsl_nodes d;
          flows = dsl_flows d;
          nodes_in_zone = group_nodes nodes [];
          zone_heights = zone_heights_loop zones nodes_in_zone []
      in case zone_geometry_loop zones zone_heights 0 [] of
           Inl e \<Rightarrow> Inl e
         | Inr (y_cursor, zone_geometry) \<Rightarrow>
             (let y_cursor = fold (\<lambda>tb y. y + TB_HEIGHT) trust_boundaries y_cursor;
                  legend_y = y_cursor + 20
              in case zone_cells_loop zones zone_geometry 1 initial_cells [] of
                   Inl e \<Rightarrow> Inl e
                 | Inr (ctr, cells, zone_cell_ids) \<Rightarrow>
                     (case node_cells_loop zones zone_cell_ids zone_geometry nodes_in_zone
                             ctr cells [] of
                        Inl e \<Rightarrow> Inl e
                      | Inr (ctr, cells, node_cell_ids) \<Rightarrow>
                          (let (ctr, cells) =
                                 tb_cells_loop (enumerate 0 trust_boundaries) zone_geometry
                                   ctr cells;
                               (ctr, cells) = flow_cells_loop flows node_cell_ids ctr cells;
                               (legend_id, ctr) = next_id ''legend-'' ctr;
                               legend = add_cell legend_id ''1'' legend_text STYLE_LEGEND True
                                          False (PyInt (CANVAS_WIDTH - LEGEND_WIDTH - 20))
                                          (PyFloat legend_y) (PyInt LEGEND_WIDTH)
                                          (PyInt LEGEND_HEIGHT) ''0'' None None
                           in serialize_xml_safe (document (cells @ [legend]))))))"

definition dsl_to_drawio :: "dsl \<Rightarrow> py_error + string" where
  "dsl_to_drawio d =
     (case validate_and_prepare_dsl d MIN_ZONES MIN_NODES MIN_FLOWS MIN_NODES_HARD True of
        Inl e \<Rightarrow> Inl e
      | Inr (None, val_errors) \<Rightarrow>
          Inl (ValueError (''DSL validation failed: '' @ join ''; '' val_errors))
      | Inr (Some d', val_errors) \<Rightarrow> render d')"

section \<open>Notions used in the statements\<close>

definition zone_ids_of :: "dsl \<Rightarrow> string list" where
  "zone_ids_of g = map zone_id (dsl_zones g)"


text \<open>The graph of a successful call: a graph together with an empty error list.\<close>

definition returned_graph :: "py_error + (dsl option \<times> string list) \<Rightarrow> dsl option" where
  "returned_graph r = (case r of Inr (Some g, []) \<Rightarrow> Some g | _ \<Rightarrow> None)"

text \<open>The call that \<^verbatim>\<open>dsl_to_drawio\<close> makes: default thresholds, expansion enabled.\<close>

definition prepare_default :: "dsl \<Rightarrow> py_error + (dsl option \<times> string list)" where
  "prepare_default d =
     validate_and_prepare_dsl d MIN_ZONES MIN_NODES MIN_FLOWS MIN_NODES_HARD True"

subsection \<open>Example graphs\<close>

definition plain_zone :: "string \<Rightarrow> int \<Rightarrow> zone" where
  "plain_zone i k = \<lparr>zone_id = i, zone_name = Some i, zone_ord = Some k, zone_color = None\<rparr>"

definition plain_node :: "string \<Rightarrow> string \<Rightarrow> node" where
  "plain_node i z =
     \<lparr>node_id = i, node_label = Some i, node_zone = Some z, node_type = None, node_tags = []\<rparr>"


text \<open>One zone, one node in it, no flow.\<close>

definition sparse_dsl :: dsl where
  "sparse_dsl =
     \<lparr>dsl_zones = [plain_zone ''z0'' 0], dsl_nodes = [plain_node ''n0'' ''z0''],
      dsl_flows = [], dsl_trust_boundaries = []\<rparr>"


text \<open>Three zones; \<^verbatim>\<open>external\<close> is an alias of \<^verbatim>\<open>internet\<close>, and the third zone
  has the id that the second one is renamed to.\<close>

definition alias_clash_dsl :: dsl where
  "alias_clash_dsl =
     \<lparr>dsl_zones = [plain_zone ''internet'' 0, plain_zone ''external'' 1,
                   plain_zone ''internet_1'' 2],
      dsl_nodes = [plain_node ''n0'' ''internet''], dsl_flows = [],
      dsl_trust_boundaries = []\<rparr>"

text \<open>A graph whose ids look like synthesised ones.\<close>

definition counter_clash_dsl :: dsl where
  "counter_clash_dsl =
     \<lparr>dsl_zones = [plain_zone ''zone_1'' 0],
      dsl_nodes = [plain_node ''node_1'' ''zone_1''],
      dsl_flows = [\<lparr>flow_id = Some ''flow_1'', flow_source = Some ''node_1'',
                    flow_target = Some ''node_1'', flow_type = None, flow_protocol = None,
                    flow_auth = None, flow_data_class = None, flow_label = None\<rparr>],
      dsl_trust_boundaries = []\<rparr>"

text \<open>A zone id that is not canonical, and a node that refers to it.\<close>

definition dmz_dsl :: dsl where
  "dmz_dsl =
     \<lparr>dsl_zones = [plain_zone ''DMZ Zone'' 0], dsl_nodes = [plain_node ''n0'' ''DMZ Zone''],
      dsl_flows = [], dsl_trust_boundaries = []\<rparr>"

subsection \<open>Nodes whose zone does not exist\<close>

text \<open>The rename map and the final zone ids that the validation computes for a graph.\<close>

definition zone_id_map_of :: "dsl \<Rightarrow> (string, string) dict" where
  "zone_id_map_of d = fst (rename_zones (sorted_zones (dsl_zones d)) [] [] [])"

definition final_zone_ids :: "dsl \<Rightarrow> string list" where
  "final_zone_ids d = map zone_id (snd (rename_zones (sorted_zones (dsl_zones d)) [] [] []))"

text \<open>The nodes whose remapped zone id is not among the final zone ids, in the order of the
  input, and the message for each.\<close>

definition offending_nodes :: "dsl \<Rightarrow> node list" where
  "offending_nodes d =
     filter (\<lambda>n. remapped_zone (zone_id_map_of d) n \<notin> set (final_zone_ids d)) (dsl_nodes d)"

definition offending_msgs :: "dsl \<Rightarrow> string list" where
  "offending_msgs d =
     map (\<lambda>n. invalid_zone_msg (node_id n) (remapped_zone (zone_id_map_of d) n))
       (offending_nodes d)"

text \<open>Two nodes that refer to zones that do not exist, around one that is fine.\<close>

definition stray_nodes_dsl :: dsl where
  "stray_nodes_dsl =
     \<lparr>dsl_zones = [plain_zone ''z0'' 0],
      dsl_nodes = [plain_node ''a'' ''nowhere'', plain_node ''b'' ''z0'',
                   plain_node ''c'' ''elsewhere''],
      dsl_flows = [], dsl_trust_boundaries = []\<rparr>"

subsection \<open>The graph synthesised from nothing\<close>







subsection \<open>Well-formed cells\<close>

text \<open>A string without \<^verbatim>\<open><\<close>.\<close>

definition lt_free :: "string \<Rightarrow> bool" where
  "lt_free s = (CHR ''<'' \<notin> set s)"

text \<open>
  The cells below \<^verbatim>\<open>root\<close>: the tag is \<^verbatim>\<open>mxCell\<close> or \<^verbatim>\<open>mxGeometry\<close>, and no
  attribute name contains \<^verbatim>\<open><\<close> (attribute values are escaped by the serialiser,
  names are not).
\<close>

fun wf_cell :: "xml_elem \<Rightarrow> bool" where
  "wf_cell (Elem t attrs cs) =
     ((t = ''mxCell'' \<or> t = ''mxGeometry'') \<and> list_all (\<lambda>kv. lt_free (fst kv)) attrs \<and>
      list_all wf_cell cs)"

text \<open>A tail that is empty or starts with \<^verbatim>\<open><\<close>.\<close>

definition at_tag :: "string \<Rightarrow> bool" where
  "at_tag s = (s = [] \<or> hd s = CHR ''<'')"

text \<open>
  A well-formed cell contributes no occurrence of a pattern \<^verbatim>\<open><q\<close> where \<open>q\<close> has
  no \<^verbatim>\<open><\<close>, does not start with \<^verbatim>\<open>/\<close> and is incomparable with both cell tags.
\<close>

definition foreign :: "string \<Rightarrow> bool" where
  "foreign q \<longleftrightarrow>
     lt_free q \<and> q \<noteq> [] \<and> hd q \<noteq> CHR ''/'' \<and>
     \<not> prefix q ''mxCell'' \<and> \<not> prefix ''mxCell'' q \<and>
     \<not> prefix q ''mxGeometry'' \<and> \<not> prefix ''mxGeometry'' q"

text \<open>Below \<^verbatim>\<open>mxfile\<close> there is no occurrence of a foreign pattern that is also
  incomparable with \<^verbatim>\<open>diagram\<close>, \<^verbatim>\<open>mxGraphModel\<close> and \<^verbatim>\<open>root\<close>.\<close>

definition inner_foreign :: "string \<Rightarrow> bool" where
  "inner_foreign q \<longleftrightarrow>
     foreign q \<and>
     \<not> prefix q ''diagram'' \<and> \<not> prefix ''diagram'' q \<and>
     \<not> prefix q ''mxGraphModel'' \<and> \<not> prefix ''mxGraphModel'' q \<and>
     \<not> prefix q ''root'' \<and> \<not> prefix ''root'' q"

subsection \<open>Zone geometry\<close>

text \<open>
  Every entry of a geometry dictionary is at \<open>x = 0\<close>, has the width of the canvas and
  the height \<open>hf k\<close> that belongs to its key.
\<close>

definition geometry_ok :: "(string \<Rightarrow> int) \<Rightarrow> (string, geometry) dict \<Rightarrow> bool" where
  "geometry_ok hf geo =
     list_all (\<lambda>(k, g). fst g = 0 \<and> fst (snd (snd g)) = zone_width \<and> snd (snd (snd g)) = hf k) geo"

text \<open>The string that \<^verbatim>\<open>dsl_to_drawio\<close> returns, where it returns one.\<close>

definition the_document :: "dsl \<Rightarrow> string" where
  "the_document d = (case dsl_to_drawio d of Inr s \<Rightarrow> s | Inl e \<Rightarrow> [])"

section \<open>The schema and its validator (\<^verbatim>\<open>dsl.py\<close>)\<close>

text \<open>
  A raw payload is JSON data.  The models of \<^verbatim>\<open>dsl.py\<close> are declarations for the
  pydantic library: a model is the list of its fields (name, type, default value when there
  is one) and its setting for fields that are not declared.  pydantic ignores such fields
  unless the model itself sets \<^verbatim>\<open>extra\<close> to \<^verbatim>\<open>forbid\<close>, and the setting of a model
  does not extend to the models of its fields.  Of the seven models only
  \<^verbatim>\<open>ArchitectureDSL\<close> has a \<^verbatim>\<open>model_config\<close>.  The coercions of pydantic's lax mode
  (digits in a string for an integer, and the like) are left out: a value has to have the
  JSON type of its field.
\<close>

datatype raw = RNull | RBool bool | RInt int | RStr string | RList "raw list"
  | RDict "(string \<times> raw) list"

datatype ftype = TStr | TOptStr | TIntGe int | TLiteral "string list" | TListStr

type_synonym field_spec = "string \<times> ftype \<times> raw option"

record model_spec =
  ms_fields :: "field_spec list"
  ms_extra_forbid :: bool

definition NodeType :: "string list" where
  "NodeType = [''app'', ''service'', ''api'', ''data_store'', ''identity'', ''security_control'',
               ''vendor'', ''external'']"

definition FlowType :: "string list" where
  "FlowType = [''api'', ''auth'', ''data'', ''log'', ''telemetry'', ''generic'']"

definition Zone_model :: model_spec where
  "Zone_model =
     \<lparr>ms_fields = [(''id'', TStr, None), (''name'', TStr, None), (''order'', TIntGe 0, None),
                   (''color'', TStr, Some (RStr ''#dae8fc''))],
      ms_extra_forbid = False\<rparr>"

definition TrustBoundary_model :: model_spec where
  "TrustBoundary_model =
     \<lparr>ms_fields = [(''id'', TStr, None), (''label'', TStr, Some (RStr [])),
                   (''between_zones'', TListStr, Some (RList []))],
      ms_extra_forbid = False\<rparr>"

definition Node_model :: model_spec where
  "Node_model =
     \<lparr>ms_fields = [(''id'', TStr, None), (''label'', TStr, None), (''zone'', TStr, None),
                   (''type'', TLiteral NodeType, Some (RStr ''app'')),
                   (''tags'', TListStr, Some (RList []))],
      ms_extra_forbid = False\<rparr>"

definition Group_model :: model_spec where
  "Group_model =
     \<lparr>ms_fields = [(''id'', TStr, None), (''label'', TStr, None), (''zone'', TStr, None),
                   (''children'', TListStr, Some (RList []))],
      ms_extra_forbid = False\<rparr>"

definition Flow_model :: model_spec where
  "Flow_model =
     \<lparr>ms_fields = [(''id'', TStr, None), (''source'', TStr, None), (''target'', TStr, None),
                   (''flow_type'', TLiteral FlowType, Some (RStr ''generic'')),
                   (''protocol'', TStr, Some (RStr [])), (''auth'', TStr, Some (RStr [])),
                   (''data_class'', TStr, Some (RStr [])), (''label'', TOptStr, Some RNull)],
      ms_extra_forbid = False\<rparr>"

definition Control_model :: model_spec where
  "Control_model =
     \<lparr>ms_fields = [(''id'', TStr, None), (''scope'', TListStr, Some (RList [])),
                   (''control_type'', TStr, None)],
      ms_extra_forbid = False\<rparr>"

text \<open>The collections of \<^verbatim>\<open>ArchitectureDSL\<close>, each with the model of its members; the
  root model has the field \<^verbatim>\<open>title\<close> besides, and forbids other fields.\<close>

definition root_collections :: "(string \<times> model_spec) list" where
  "root_collections =
     [(''zones'', Zone_model), (''trust_boundaries'', TrustBoundary_model),
      (''groups'', Group_model), (''nodes'', Node_model), (''flows'', Flow_model),
      (''controls'', Control_model)]"

definition root_extra_forbid :: bool where
  "root_extra_forbid = True"

definition is_str :: "raw \<Rightarrow> bool" where
  "is_str v = (case v of RStr s \<Rightarrow> True | _ \<Rightarrow> False)"

text \<open>The messages for a value that does not have the type of its field.\<close>

fun check_type :: "ftype \<Rightarrow> raw \<Rightarrow> string list" where
  "check_type TStr v = (if is_str v then [] else [''Input should be a valid string''])"
| "check_type TOptStr v =
     (if is_str v \<or> v = RNull then [] else [''Input should be a valid string''])"
| "check_type (TIntGe k) v =
     (case v of
        RInt i \<Rightarrow> if k \<le> i then []
                  else [''Input should be greater than or equal to '' @ str_int k]
      | _ \<Rightarrow> [''Input should be a valid integer''])"
| "check_type (TLiteral vs) v =
     (case v of
        RStr s \<Rightarrow> if s \<in> set vs then [] else [''Input should be one of the literals'']
      | _ \<Rightarrow> [''Input should be one of the literals''])"
| "check_type TListStr v =
     (case v of
        RList xs \<Rightarrow> if list_all is_str xs then [] else [''Input should be a valid string'']
      | _ \<Rightarrow> [''Input should be a valid list''])"

definition at_loc :: "string \<Rightarrow> string \<Rightarrow> string" where
  "at_loc loc msg = loc @ '': '' @ msg"

definition check_field :: "string \<Rightarrow> (string \<times> raw) list \<Rightarrow> field_spec \<Rightarrow> string list" where
  "check_field loc kvs f =
     (case f of (name, ty, dflt) \<Rightarrow>
        (case map_of kvs name of
           None \<Rightarrow> (case dflt of None \<Rightarrow> [at_loc (loc @ name) ''Field required''] | Some d \<Rightarrow> [])
         | Some v \<Rightarrow> map (at_loc (loc @ name)) (check_type ty v)))"

definition extra_errors :: "string \<Rightarrow> string list \<Rightarrow> (string \<times> raw) list \<Rightarrow> string list" where
  "extra_errors loc names kvs =
     map (\<lambda>k. at_loc (loc @ k) ''Extra inputs are not permitted'')
       (filter (\<lambda>k. k \<notin> set names) (map fst kvs))"

text \<open>The errors of one entity, and the entity as the model keeps it: the declared fields,
  with defaults filled in.\<close>

definition entity_errors :: "model_spec \<Rightarrow> string \<Rightarrow> raw \<Rightarrow> string list" where
  "entity_errors m loc v =
     (case v of
        RDict kvs \<Rightarrow>
          concat (map (check_field (loc @ ''.'') kvs) (ms_fields m)) @
          (if ms_extra_forbid m then extra_errors (loc @ ''.'') (map fst (ms_fields m)) kvs
           else [])
      | _ \<Rightarrow> [at_loc loc ''Input should be a valid dictionary or object to extract fields from''])"

definition entity_value :: "model_spec \<Rightarrow> raw \<Rightarrow> raw" where
  "entity_value m v =
     (case v of
        RDict kvs \<Rightarrow>
          RDict (map (\<lambda>(name, ty, dflt).
                   (name, case map_of kvs name of
                            Some x \<Rightarrow> x
                          | None \<Rightarrow> (case dflt of Some d \<Rightarrow> d | None \<Rightarrow> RNull)))
                 (ms_fields m))
      | _ \<Rightarrow> RNull)"

definition collection_errors :: "(string \<times> raw) list \<Rightarrow> string \<times> model_spec \<Rightarrow> string list" where
  "collection_errors kvs c =
     (case c of (name, m) \<Rightarrow>
        (case map_of kvs name of
           None \<Rightarrow> []
         | Some (RList xs) \<Rightarrow>
             concat (map (\<lambda>(i, x). entity_errors m (name @ ''.'' @ str_nat i) x) (enumerate 0 xs))
         | Some _ \<Rightarrow> [at_loc name ''Input should be a valid list'']))"

definition collection_value :: "(string \<times> raw) list \<Rightarrow> string \<times> model_spec \<Rightarrow> string \<times> raw" where
  "collection_value kvs c =
     (case c of (name, m) \<Rightarrow>
        (name, case map_of kvs name of Some (RList xs) \<Rightarrow> RList (map (entity_value m) xs)
                                     | _ \<Rightarrow> RList []))"

text \<open>\<^verbatim>\<open>ArchitectureDSL.model_validate(data)\<close>: the errors, empty when the payload is
  valid, and the model (as the dictionary of its fields).\<close>

definition model_errors :: "raw \<Rightarrow> string list" where
  "model_errors data =
     (case data of
        RDict kvs \<Rightarrow>
          check_field [] kvs (''title'', TOptStr, Some RNull) @
          concat (map (collection_errors kvs) root_collections) @
          (if root_extra_forbid
           then extra_errors [] (''title'' # map fst root_collections) kvs else [])
      | _ \<Rightarrow> [''Input should be a valid dictionary or object to extract fields from''])"

definition model_value :: "raw \<Rightarrow> raw" where
  "model_value data =
     (case data of
        RDict kvs \<Rightarrow>
          RDict ((''title'', case map_of kvs ''title'' of Some t \<Rightarrow> t | None \<Rightarrow> RNull) #
                 map (collection_value kvs) root_collections)
      | _ \<Rightarrow> RNull)"

text \<open>\<^verbatim>\<open>validate_dsl\<close>: the model and no message, or no model and the messages of the
  validation error.\<close>

definition validate_dsl :: "raw \<Rightarrow> raw option \<times> string list" where
  "validate_dsl data =
     (let errors = model_errors data
      in if errors = [] then (Some (model_value data), []) else (None, errors))"

text \<open>A payload with one zone that has a field \<^verbatim>\<open>bogus\<close>, and a payload with such a
  field at the top level.\<close>

definition extra_in_zone_payload :: raw where
  "extra_in_zone_payload =
     RDict [(''zones'', RList [RDict [(''id'', RStr ''z0''), (''name'', RStr ''Z''),
                                      (''order'', RInt 0), (''bogus'', RInt 1)]])]"

definition extra_at_top_payload :: raw where
  "extra_at_top_payload =
     RDict [(''zones'', RList [RDict [(''id'', RStr ''z0''), (''name'', RStr ''Z''),
                                      (''order'', RInt 0)]]),
            (''bogus'', RInt 1)]"

section \<open>Properties of the dictionaries\<close>







section \<open>Density expansion\<close>








text \<open>
  Claim C4 at \<open>alias_clash_dsl\<close>: the call succeeds, and the second and the third zone
  of the returned graph both have the id \<^verbatim>\<open>internet_1\<close>.
\<close>

theorem zone_ids_not_distinct:
  "map_option zone_ids_of (returned_graph (prepare_default alias_clash_dsl)) =
     Some [''internet'', ''internet_1'', ''internet_1'', ''zone_3'', ''zone_4'']"
  by code_simp

text \<open>
  Claim C7 at the graph that the call returns for \<open>alias_clash_dsl\<close>: a second call on
  that graph succeeds, and renames its third zone to \<^verbatim>\<open>internet_1_1\<close>.
\<close>

theorem second_run_renames_zone:
  "map_option zone_ids_of
     (Option.bind (returned_graph (prepare_default alias_clash_dsl))
        (\<lambda>g. returned_graph (prepare_default g))) =
     Some [''internet'', ''internet_1'', ''internet_1_1'', ''zone_3'', ''zone_4'']"
  by code_simp

text \<open>
  Claim C8 at \<open>counter_clash_dsl\<close>: the first zone, node and flow that the expansion
  adds have the ids of the zone, the node and the flow of the input.
\<close>

theorem synthesized_ids_collide:
  "map_option
     (\<lambda>g. (zone_ids_of g, take 2 (map node_id (dsl_nodes g)), take 2 (map flow_id (dsl_flows g))))
     (returned_graph (prepare_default counter_clash_dsl)) =
     Some ([''zone_1'', ''zone_1'', ''zone_2'', ''zone_3'', ''zone_4''],
           [''node_1'', ''node_1''], [Some ''flow_1'', Some ''flow_1''])"
  by code_simp

text \<open>
  Claim C9 at \<open>dmz_dsl\<close>: after the call, the node of the caller's dictionary refers to
  the zone \<^verbatim>\<open>dmz\<close>, not to \<^verbatim>\<open>DMZ Zone\<close> as before.
\<close>

theorem input_nodes_mutated:
  "map_sum id caller_dsl
     (validate_and_prepare_dsl_call dmz_dsl MIN_ZONES MIN_NODES MIN_FLOWS MIN_NODES_HARD True) =
     Inr (dmz_dsl\<lparr>dsl_nodes := [plain_node ''n0'' ''dmz'']\<rparr>) \<and>
   dmz_dsl\<lparr>dsl_nodes := [plain_node ''n0'' ''dmz'']\<rparr> \<noteq> dmz_dsl"
  by code_simp

section \<open>Nodes in zones that do not exist\<close>

lemma sorted_zones_Nil: "sorted_zones zs = [] \<longleftrightarrow> zs = []"
proof -
  have "length (sorted_zones zs) = length zs" by (simp add: sorted_zones_def)
  then show ?thesis by (metis length_0_conv)
qed

lemma remap_nodes_eq:
  "remap_nodes m ids ns =
     (map (\<lambda>n. n\<lparr>node_zone := Some (remapped_zone m n)\<rparr>) ns,
      map (\<lambda>n. invalid_zone_msg (node_id n) (remapped_zone m n))
        (filter (\<lambda>n. remapped_zone m n \<notin> set ids) ns))"
  by (induction ns) (auto simp: Let_def)

text \<open>
  Claim C3.  For a graph with a non-empty zones list in which some node's remapped zone id
  is not among the final zone ids, \<^verbatim>\<open>validate_and_prepare_dsl\<close> returns no graph and
  the list of messages that has one message for every such node, in the order of the
  nodes (whatever the thresholds and the expansion flag), and \<^verbatim>\<open>dsl_to_drawio\<close> raises
  \<^verbatim>\<open>ValueError\<close> with these messages.
\<close>

theorem invalid_zone_reported:
  assumes "dsl_zones d \<noteq> []" and "offending_nodes d \<noteq> []"
  shows "validate_and_prepare_dsl d min_zones min_nodes min_flows min_nodes_hard expand =
           Inr (None, offending_msgs d) \<and>
         length (offending_msgs d) = length (offending_nodes d) \<and>
         dsl_to_drawio d =
           Inl (ValueError (''DSL validation failed: '' @ join ''; '' (offending_msgs d)))"
proof -
  have nz: "sorted_zones (dsl_zones d) \<noteq> []"
    using assms(1) by (simp add: sorted_zones_Nil)
  obtain m zs where rz: "rename_zones (sorted_zones (dsl_zones d)) [] [] [] = (m, zs)"
    by (cases "rename_zones (sorted_zones (dsl_zones d)) [] [] []")
  have m: "zone_id_map_of d = m" and ids: "final_zone_ids d = map zone_id zs"
    by (simp_all add: zone_id_map_of_def final_zone_ids_def rz)
  have ne: "offending_msgs d \<noteq> []"
    using assms(2) by (simp add: offending_msgs_def)
  have rn: "remap_nodes m (map zone_id zs) (dsl_nodes d) =
              (map (\<lambda>n. n\<lparr>node_zone := Some (remapped_zone m n)\<rparr>) (dsl_nodes d), offending_msgs d)"
    by (simp add: remap_nodes_eq offending_msgs_def offending_nodes_def m ids)
  have v: "validate_and_prepare_dsl d a b c e x = Inr (None, offending_msgs d)" for a b c e x
    using nz ne by (simp add: validate_and_prepare_dsl_def validate_and_prepare_dsl_call_def rz rn)
  show ?thesis
    by (simp add: v dsl_to_drawio_def) (simp add: offending_msgs_def)
qed

text \<open>The theorem at \<open>stray_nodes_dsl\<close>: both stray nodes are reported, the first one
  first.\<close>

theorem invalid_zone_reported_witness:
  "dsl_zones stray_nodes_dsl \<noteq> [] \<and>
   offending_nodes stray_nodes_dsl = [plain_node ''a'' ''nowhere'', plain_node ''c'' ''elsewhere''] \<and>
   validate_and_prepare_dsl stray_nodes_dsl MIN_ZONES MIN_NODES MIN_FLOWS MIN_NODES_HARD True =
     Inr (None, [invalid_zone_msg ''a'' ''nowhere'', invalid_zone_msg ''c'' ''elsewhere'']) \<and>
   dsl_to_drawio stray_nodes_dsl =
     Inl (ValueError (''DSL validation failed: '' @ invalid_zone_msg ''a'' ''nowhere'' @ ''; '' @
                      invalid_zone_msg ''c'' ''elsewhere''))"
proof -
  have z: "dsl_zones stray_nodes_dsl \<noteq> []"
    by (simp add: stray_nodes_dsl_def)
  have o: "offending_nodes stray_nodes_dsl =
             [plain_node ''a'' ''nowhere'', plain_node ''c'' ''elsewhere'']"
    by code_simp
  have ne: "offending_nodes stray_nodes_dsl \<noteq> []"
    by (simp add: o)
  have ms: "offending_msgs stray_nodes_dsl =
              [invalid_zone_msg ''a'' ''nowhere'', invalid_zone_msg ''c'' ''elsewhere'']"
    by code_simp
  from invalid_zone_reported [OF z ne, of MIN_ZONES MIN_NODES MIN_FLOWS MIN_NODES_HARD True]
  show ?thesis
    by (simp add: z o ms)
qed

section \<open>Expansion from an empty zones list\<close>














section \<open>Counting tags in the serialised document\<close>

lemma lt_free_append [simp]: "lt_free (a @ b) \<longleftrightarrow> lt_free a \<and> lt_free b"
  by (auto simp: lt_free_def)

lemma lt_free_Cons [simp]: "lt_free (c # s) \<longleftrightarrow> c \<noteq> CHR ''<'' \<and> lt_free s"
  by (auto simp: lt_free_def)

lemma lt_free_Nil [simp]: "lt_free []"
  by (simp add: lt_free_def)

lemma lt_free_escape_attrib: "lt_free (escape_attrib s)"
  by (induction s) (auto simp: escape_attrib_def escape_char_def)

lemma lt_free_attrib_text: "lt_free (fst kv) \<Longrightarrow> lt_free (attrib_text kv)"
  by (simp add: attrib_text_def lt_free_escape_attrib)

lemma lt_free_attribs:
  "list_all (\<lambda>kv. lt_free (fst kv)) attrs \<Longrightarrow> lt_free (concat (map attrib_text attrs))"
  by (induction attrs) (simp_all add: lt_free_attrib_text)

text \<open>A pattern that starts with \<^verbatim>\<open><\<close> cannot start inside a stretch without
  \<^verbatim>\<open><\<close>.\<close>

lemma count_sub_skip:
  assumes "lt_free u"
  shows "count_sub (CHR ''<'' # q) (u @ s) = count_sub (CHR ''<'' # q) s"
  using assms
proof (induction u)
  case Nil
  then show ?case by simp
next
  case (Cons c u)
  then have "c \<noteq> CHR ''<''" and "lt_free u" by simp_all
  with Cons.IH show ?case
    by (subst count_sub.simps) simp
qed

lemma prefix_lt_free:
  assumes "lt_free q" and "at_tag s"
  shows "prefix q (u @ s) \<longleftrightarrow> prefix q u"
proof
  assume "prefix q (u @ s)"
  then have "prefix q u \<or> (\<exists>us. q = u @ us \<and> prefix us s)"
    by (simp add: prefix_append)
  then show "prefix q u"
  proof (elim disjE exE conjE)
    fix us
    assume q: "q = u @ us" and p: "prefix us s"
    show ?thesis
    proof (cases us)
      case Nil
      with q show ?thesis by simp
    next
      case (Cons c us')
      with p obtain s' where "s = c # s'"
        by (cases s) auto
      with assms(2) have "c = CHR ''<''"
        by (simp add: at_tag_def)
      with assms(1) q Cons show ?thesis by simp
    qed
  qed
next
  assume "prefix q u"
  then show "prefix q (u @ s)" by simp
qed

text \<open>One piece \<^verbatim>\<open><u\<close> of the document, followed by the next piece.\<close>

lemma count_sub_piece:
  assumes "lt_free q" and "lt_free u" and "at_tag s"
  shows "count_sub (CHR ''<'' # q) (CHR ''<'' # u @ s) =
         (if prefix q u then 1 else 0) + count_sub (CHR ''<'' # q) s"
proof (cases "prefix q u")
  case True
  then obtain r where u: "u = q @ r" by (auto simp: prefix_def)
  then have r: "lt_free r" using assms(2) by simp
  have "count_sub (CHR ''<'' # q) (CHR ''<'' # u @ s) = 1 + count_sub (CHR ''<'' # q) (r @ s)"
    by (subst count_sub.simps) (simp add: u)
  with True count_sub_skip [OF r] show ?thesis by simp
next
  case False
  then have "\<not> prefix q (u @ s)"
    using prefix_lt_free [OF assms(1,3)] by simp
  then have "count_sub (CHR ''<'' # q) (CHR ''<'' # u @ s) = count_sub (CHR ''<'' # q) (u @ s)"
    by (subst count_sub.simps) simp
  with False count_sub_skip [OF assms(2)] show ?thesis by simp
qed

lemma not_prefix_of_tag:
  assumes "\<not> prefix q t" and "\<not> prefix t q"
  shows "\<not> prefix q (t @ r)"
  using assms prefix_same_cases [of q "t @ r" t] by auto

lemma at_tag_tostring [simp]: "at_tag (tostring e @ s)"
  by (cases e) (simp add: at_tag_def)

lemma at_tag_concat_tostring: "at_tag s \<Longrightarrow> at_tag (concat (map tostring cs) @ s)"
  by (cases cs) simp_all

lemma count_sub_cell:
  assumes "foreign q"
  shows "wf_cell e \<Longrightarrow> at_tag s \<Longrightarrow>
         count_sub (CHR ''<'' # q) (tostring e @ s) = count_sub (CHR ''<'' # q) s"
proof (induction e arbitrary: s)
  case (Elem t attrs cs)
  from assms have q: "lt_free q" and slash: "\<not> prefix q (CHR ''/'' # r)" for r
    by (auto simp: foreign_def prefix_Cons neq_Nil_conv)
  from Elem.prems(1) have t: "t = ''mxCell'' \<or> t = ''mxGeometry''"
    and a: "lt_free (concat (map attrib_text attrs))" and wcs: "list_all wf_cell cs"
    by (simp_all add: lt_free_attribs)
  from t have ltt: "lt_free t" by auto
  from t assms have "\<not> prefix q t \<and> \<not> prefix t q"
    by (auto simp: foreign_def)
  then have np: "\<not> prefix q (t @ r)" for r
    using not_prefix_of_tag by blast
  have kids: "count_sub (CHR ''<'' # q) (concat (map tostring cs') @ s') =
              count_sub (CHR ''<'' # q) s'"
    if "set cs' \<subseteq> set cs" and "at_tag s'" for cs' s'
    using that
  proof (induction cs')
    case Nil
    then show ?case by simp
  next
    case (Cons c cs')
    then have c: "c \<in> set cs" and rest: "set cs' \<subseteq> set cs" by auto
    from c wcs have wc: "wf_cell c" by (simp add: list_all_iff)
    have at: "at_tag (concat (map tostring cs') @ s')"
      using Cons.prems(2) by (rule at_tag_concat_tostring)
    from Elem.IH [OF c wc at] Cons.IH [OF rest Cons.prems(2)]
    show ?case by simp
  qed
  show ?case
  proof (cases "cs = []")
    case True
    have "tostring (Elem t attrs cs) @ s =
            CHR ''<'' # (t @ concat (map attrib_text attrs) @ '' />'') @ s"
      using True by simp
    moreover have "lt_free (t @ concat (map attrib_text attrs) @ '' />'')"
      using ltt a by simp
    ultimately show ?thesis
      using count_sub_piece [OF q _ Elem.prems(2), of "t @ concat (map attrib_text attrs) @ '' />''"]
        np [of "concat (map attrib_text attrs) @ '' />''"]
      by simp
  next
    case False
    let ?close = "CHR ''/'' # t @ ''>''"
    have close: "count_sub (CHR ''<'' # q) (CHR ''<'' # ?close @ s) = count_sub (CHR ''<'' # q) s"
      using count_sub_piece [OF q _ Elem.prems(2), of ?close] ltt slash by simp
    have at: "at_tag (CHR ''<'' # ?close @ s)" by (simp add: at_tag_def)
    have inner: "count_sub (CHR ''<'' # q) (concat (map tostring cs) @ CHR ''<'' # ?close @ s) =
                 count_sub (CHR ''<'' # q) s"
      using kids [OF subset_refl at] close by simp
    have at2: "at_tag (concat (map tostring cs) @ CHR ''<'' # ?close @ s)"
      using at by (rule at_tag_concat_tostring)
    have "tostring (Elem t attrs cs) @ s =
            CHR ''<'' # (t @ concat (map attrib_text attrs) @ ''>'') @
            (concat (map tostring cs) @ CHR ''<'' # ?close @ s)"
      using False by simp
    moreover have "lt_free (t @ concat (map attrib_text attrs) @ ''>'')"
      using ltt a by simp
    ultimately show ?thesis
      using count_sub_piece [OF q _ at2, of "t @ concat (map attrib_text attrs) @ ''>''"]
        np [of "concat (map attrib_text attrs) @ ''>''"] inner
      by simp
  qed
qed

lemma count_sub_cells:
  assumes "foreign q" and "list_all wf_cell cs" and "at_tag s"
  shows "count_sub (CHR ''<'' # q) (concat (map tostring cs) @ s) = count_sub (CHR ''<'' # q) s"
  using assms(2)
proof (induction cs)
  case Nil
  then show ?case by simp
next
  case (Cons c cs)
  then have "wf_cell c" and "list_all wf_cell cs" by simp_all
  moreover have "at_tag (concat (map tostring cs) @ s)"
    using assms(3) by (rule at_tag_concat_tostring)
  ultimately show ?case
    using count_sub_cell [OF assms(1), of c "concat (map tostring cs) @ s"] Cons.IH by simp
qed


section \<open>Grid layout\<close>

lemma cols_max_eq: "cols_max = 6"
  by (simp add: cols_max_def content_width_def zone_width_def CANVAS_WIDTH_def PADDING_def
        GAP_X_def NODE_W_def)

lemma zone_cols_eq: "zone_cols n = (if n = 0 then 1 else min 6 n)"
  by (auto simp: zone_cols_def cols_max_eq min_def)

lemma zone_rows_eq: "zone_rows n = (if n = 0 then 1 else int ((n + 5) div 6))"
  by (simp add: zone_rows_def cols_max_eq) linarith

lemma node_x_bounds:
  assumes "i < n"
  shows "0 \<le> node_x (zone_cols n) i \<and> node_x (zone_cols n) i + NODE_W \<le> zone_width"
proof -
  have "i mod zone_cols n < 6"
    using assms by (auto simp: zone_cols_eq min_def intro: less_le_trans [OF mod_less_divisor])
  then have "int (i mod zone_cols n) \<le> 5" by simp
  then show ?thesis
    by (simp add: node_x_def NODE_W_def GAP_X_def PADDING_def zone_width_def CANVAS_WIDTH_def)
qed

lemma node_y_bounds:
  assumes "i < n"
  shows "0 \<le> node_y (zone_cols n) i \<and>
         node_y (zone_cols n) i + NODE_H \<le> zone_height n - ZONE_HEADER_HEIGHT"
proof -
  have "i div zone_cols n + 1 \<le> (n + 5) div 6"
  proof (cases "n \<le> 6")
    case True
    with assms have "zone_cols n = n" and "i div n = 0" and "0 < n"
      by (simp_all add: zone_cols_eq)
    then show ?thesis by simp
  next
    case False
    then have "zone_cols n = 6" by (simp add: zone_cols_eq)
    with assms show ?thesis by simp
  qed
  then have "int (i div zone_cols n) + 1 \<le> zone_rows n"
    using assms by (simp add: zone_rows_eq)
  then have "(int (i div zone_cols n) + 1) * 100 \<le> zone_rows n * 100"
    by simp
  then show ?thesis
    by (simp add: node_y_def zone_height_def NODE_H_def GAP_Y_def PADDING_def
          ZONE_HEADER_HEIGHT_def Let_def algebra_simps)
qed

lemma dict_get_dict_set:
  "dict_get (dict_set d k v) k' = (if k' = k then Some v else dict_get d k')"
  by (induction d k v rule: dict_set.induct) (auto simp: dict_get_def)

lemma zone_heights_loop_get:
  "dict_get (zone_heights_loop zs niz hs) k =
     (if k \<in> zone_id ` set zs then Some (zone_height (length (nodes_of_zone niz k)))
      else dict_get hs k)"
  by (induction zs arbitrary: hs) (auto simp: Let_def dict_get_dict_set)

lemma geometry_ok_dict_set:
  "geometry_ok hf geo \<Longrightarrow> geometry_ok hf (dict_set geo k (0, y, zone_width, hf k))"
  by (induction geo k "(0::int, y, zone_width, hf k)" rule: dict_set.induct)
     (auto simp: geometry_ok_def)

lemma geometry_ok_get:
  "geometry_ok hf geo \<Longrightarrow> dict_get geo k = Some (x, y, w, h) \<Longrightarrow> w = zone_width \<and> h = hf k"
  by (induction geo) (auto simp: geometry_ok_def dict_get_def split: if_splits)

lemma zone_geometry_loop_ok:
  assumes "\<forall>z\<in>set zs. dict_get heights (zone_id z) = Some (hf (zone_id z))"
    and "geometry_ok hf geo"
  shows "\<exists>y' geo'. zone_geometry_loop zs heights y geo = Inr (y', geo') \<and> geometry_ok hf geo' \<and>
           (\<forall>k. k \<in> zone_id ` set zs \<or> dict_get geo k \<noteq> None \<longrightarrow> dict_get geo' k \<noteq> None)"
  using assms
proof (induction zs arbitrary: y geo)
  case Nil
  then show ?case by simp
next
  case (Cons z zs)
  let ?h = "hf (zone_id z)"
  let ?geo = "dict_set geo (zone_id z) (0, y, zone_width, ?h)"
  have step: "zone_geometry_loop (z # zs) heights y geo =
              zone_geometry_loop zs heights (y + ?h) ?geo"
    using Cons.prems(1) by (simp add: Let_def)
  have "\<forall>z\<in>set zs. dict_get heights (zone_id z) = Some (hf (zone_id z))"
    using Cons.prems(1) by simp
  from Cons.IH [OF this geometry_ok_dict_set [OF Cons.prems(2)]]
  obtain y' geo' where
    r: "zone_geometry_loop zs heights (y + ?h) ?geo = Inr (y', geo')" and ok: "geometry_ok hf geo'"
    and keys: "\<forall>k. k \<in> zone_id ` set zs \<or> dict_get ?geo k \<noteq> None \<longrightarrow> dict_get geo' k \<noteq> None"
    by blast
  from keys have "\<forall>k. k \<in> zone_id ` set (z # zs) \<or> dict_get geo k \<noteq> None \<longrightarrow> dict_get geo' k \<noteq> None"
    by (auto simp: dict_get_dict_set)
  with r ok show ?case
    by (simp only: step) blast
qed

lemma keys_lt_free_dict_set:
  "list_all (\<lambda>kv. lt_free (fst kv)) d \<Longrightarrow> lt_free k \<Longrightarrow>
   list_all (\<lambda>kv. lt_free (fst kv)) (dict_set d k v)"
  by (induction d k v rule: dict_set.induct) auto

lemma wf_add_cell: "wf_cell (add_cell cid pid v st vx ed x y w h rel src tgt)"
  unfolding add_cell_def Let_def
  by (simp del: dict_set.simps add: keys_lt_free_dict_set split: option.splits)

lemma zone_cells_loop_ok:
  assumes "\<forall>z\<in>set zs. dict_get geo (zone_id z) \<noteq> None" and "list_all wf_cell cells"
  shows "\<exists>ctr' cells' ids'. zone_cells_loop zs geo ctr cells ids = Inr (ctr', cells', ids') \<and>
           list_all wf_cell cells' \<and>
           (\<forall>k. k \<in> zone_id ` set zs \<or> dict_get ids k \<noteq> None \<longrightarrow> dict_get ids' k \<noteq> None)"
  using assms
proof (induction zs arbitrary: ctr cells ids)
  case Nil
  then show ?case by simp
next
  case (Cons z zs)
  from Cons.prems(1) obtain x y w h where g: "dict_get geo (zone_id z) = Some (x, y, w, h)"
    by (cases "dict_get geo (zone_id z)") auto
  obtain cell cid where
    step: "zone_cells_loop (z # zs) geo ctr cells ids =
           zone_cells_loop zs geo (ctr + 1) (cells @ [cell]) (dict_set ids (zone_id z) cid)"
    and cell: "wf_cell cell"
    using g wf_add_cell by (simp add: Let_def next_id_def)
  have p1: "\<forall>z\<in>set zs. dict_get geo (zone_id z) \<noteq> None"
    using Cons.prems(1) by simp
  have p2: "list_all wf_cell (cells @ [cell])"
    using Cons.prems(2) cell by simp
  from Cons.IH [OF p1 p2, of "ctr + 1" "dict_set ids (zone_id z) cid"]
  obtain ctr' cells' ids' where
    r: "zone_cells_loop zs geo (ctr + 1) (cells @ [cell]) (dict_set ids (zone_id z) cid) =
        Inr (ctr', cells', ids')" and wf: "list_all wf_cell cells'"
    and keys: "\<forall>k. k \<in> zone_id ` set zs \<or> dict_get (dict_set ids (zone_id z) cid) k \<noteq> None \<longrightarrow>
                 dict_get ids' k \<noteq> None"
    by blast
  from keys have "\<forall>k. k \<in> zone_id ` set (z # zs) \<or> dict_get ids k \<noteq> None \<longrightarrow> dict_get ids' k \<noteq> None"
    by (auto simp: dict_get_dict_set)
  with r wf show ?case
    by (simp only: step) blast
qed

lemma place_nodes_ok:
  assumes "\<forall>p\<in>set ins. fst p < n" and "list_all wf_cell cells"
  shows "\<exists>ctr' cells' ids'.
           place_nodes ins (zone_cols n) zone_width (zone_height n - ZONE_HEADER_HEIGHT) pid ctr
             cells ids = Inr (ctr', cells', ids') \<and> list_all wf_cell cells'"
  using assms
proof (induction ins arbitrary: ctr cells ids)
  case Nil
  then show ?case by simp
next
  case (Cons p ins)
  obtain i nd where p: "p = (i, nd)" by (cases p)
  with Cons.prems(1) have "i < n" by simp
  note b = node_x_bounds [OF this] node_y_bounds [OF this]
  obtain cell cid where
    step: "place_nodes (p # ins) (zone_cols n) zone_width (zone_height n - ZONE_HEADER_HEIGHT) pid
             ctr cells ids =
           place_nodes ins (zone_cols n) zone_width (zone_height n - ZONE_HEADER_HEIGHT) pid
             (ctr + 1) (cells @ [cell]) (dict_set ids (node_id nd) cid)"
    and cell: "wf_cell cell"
    using b wf_add_cell by (simp add: p Let_def next_id_def)
  have p1: "\<forall>p\<in>set ins. fst p < n"
    using Cons.prems(1) by simp
  have p2: "list_all wf_cell (cells @ [cell])"
    using Cons.prems(2) cell by simp
  from Cons.IH [OF p1 p2, of "ctr + 1" "dict_set ids (node_id nd) cid"]
  show ?case
    by (simp only: step)
qed

lemma node_cells_loop_ok:
  assumes "\<forall>z\<in>set zs. dict_get zids (zone_id z) \<noteq> None"
    and "\<forall>z\<in>set zs. dict_get geo (zone_id z) \<noteq> None"
    and "geometry_ok (\<lambda>k. zone_height (length (nodes_of_zone niz k))) geo"
    and "list_all wf_cell cells"
  shows "\<exists>ctr' cells' ids'.
           node_cells_loop zs zids geo niz ctr cells ids = Inr (ctr', cells', ids') \<and>
           list_all wf_cell cells'"
  using assms
proof (induction zs arbitrary: ctr cells ids)
  case Nil
  then show ?case by simp
next
  case (Cons z zs)
  let ?ns = "nodes_of_zone niz (zone_id z)"
  from Cons.prems(1) obtain pid where pid: "dict_get zids (zone_id z) = Some pid"
    by (cases "dict_get zids (zone_id z)") auto
  from Cons.prems(2) obtain x y w h where g: "dict_get geo (zone_id z) = Some (x, y, w, h)"
    by (cases "dict_get geo (zone_id z)") auto
  from geometry_ok_get [OF Cons.prems(3) g]
  have w: "w = zone_width" and h: "h = zone_height (length ?ns)" by simp_all
  have "\<forall>p\<in>set (enumerate 0 ?ns). fst p < length ?ns"
    by (auto simp: in_set_enumerate_eq)
  from place_nodes_ok [OF this Cons.prems(4), of pid ctr ids]
  obtain ctr1 cells1 ids1 where
    pl: "place_nodes (enumerate 0 ?ns) (zone_cols (length ?ns)) zone_width
           (zone_height (length ?ns) - ZONE_HEADER_HEIGHT) pid ctr cells ids =
         Inr (ctr1, cells1, ids1)" and wf1: "list_all wf_cell cells1"
    by blast
  have step: "node_cells_loop (z # zs) zids geo niz ctr cells ids =
              node_cells_loop zs zids geo niz ctr1 cells1 ids1"
    by (simp add: pid g w h pl Let_def)
  have p1: "\<forall>z\<in>set zs. dict_get zids (zone_id z) \<noteq> None"
    and p2: "\<forall>z\<in>set zs. dict_get geo (zone_id z) \<noteq> None"
    using Cons.prems(1,2) by simp_all
  from Cons.IH [OF p1 p2 Cons.prems(3) wf1, of ctr1 ids1] show ?case
    by (simp only: step)
qed

lemma tb_cells_loop_wf:
  "list_all wf_cell cells \<Longrightarrow> list_all wf_cell (snd (tb_cells_loop itbs geo ctr cells))"
  by (induction itbs arbitrary: ctr cells)
     (auto simp: Let_def next_id_def wf_add_cell split: option.splits)

lemma flow_cells_loop_wf:
  "list_all wf_cell cells \<Longrightarrow> list_all wf_cell (snd (flow_cells_loop fs ids ctr cells))"
  by (induction fs arbitrary: ctr cells)
     (auto simp: Let_def next_id_def wf_add_cell split: option.splits)

section \<open>The serialised document\<close>

lemma count_sub_pos_find: "p \<noteq> [] \<Longrightarrow> 0 < count_sub p s \<Longrightarrow> find_sub p s \<noteq> None"
proof (induction s)
  case Nil
  then show ?case by (subst (asm) count_sub.simps) simp
next
  case (Cons c s)
  show ?case
  proof (cases "prefix p (c # s)")
    case True
    then show ?thesis by simp
  next
    case False
    with Cons.prems have "0 < count_sub p s"
      by (subst (asm) count_sub.simps) simp
    with Cons.IH Cons.prems(1) False show ?thesis by simp
  qed
qed

text \<open>An element with children: its opening piece, the children, its closing piece.\<close>

lemma count_sub_open:
  assumes "lt_free q" and "lt_free t" and "list_all (\<lambda>kv. lt_free (fst kv)) attrs"
    and "cs \<noteq> []" and "at_tag s"
  shows "count_sub (CHR ''<'' # q) (tostring (Elem t attrs cs) @ s) =
         (if prefix q (t @ concat (map attrib_text attrs) @ ''>'') then 1 else 0) +
         count_sub (CHR ''<'' # q) (concat (map tostring cs) @ CHR ''<'' # (CHR ''/'' # t @ ''>'') @ s)"
proof -
  have at: "at_tag (concat (map tostring cs) @ CHR ''<'' # (CHR ''/'' # t @ ''>'') @ s)"
    by (rule at_tag_concat_tostring) (simp add: at_tag_def)
  have lt: "lt_free (t @ concat (map attrib_text attrs) @ ''>'')"
    using assms(2,3) by (simp add: lt_free_attribs)
  have "tostring (Elem t attrs cs) @ s =
          CHR ''<'' # (t @ concat (map attrib_text attrs) @ ''>'') @
          (concat (map tostring cs) @ CHR ''<'' # (CHR ''/'' # t @ ''>'') @ s)"
    using assms(4) by simp
  then show ?thesis
    using count_sub_piece [OF assms(1) lt at] by simp
qed

lemma count_sub_close:
  assumes "lt_free q" and "lt_free t" and "at_tag s"
  shows "count_sub (CHR ''<'' # q) (CHR ''<'' # (CHR ''/'' # t @ ''>'') @ s) =
         (if prefix q (CHR ''/'' # t @ ''>'') then 1 else 0) + count_sub (CHR ''<'' # q) s"
  using count_sub_piece [OF assms(1) _ assms(3), of "CHR ''/'' # t @ ''>''"] assms(2) by simp

text \<open>The number of occurrences of \<^verbatim>\<open><q\<close> in the \<^verbatim>\<open>root\<close> element.\<close>

lemma count_sub_root:
  assumes "foreign q" and "\<not> prefix q ''root'' \<and> \<not> prefix ''root'' q"
    and "list_all wf_cell cells" and "at_tag s"
  shows "count_sub (CHR ''<'' # q) (tostring (Elem ''root'' [] cells) @ s) =
         count_sub (CHR ''<'' # q) s"
proof -
  from assms(1) have q: "lt_free q" and slash: "\<not> prefix q (CHR ''/'' # r)" for r
    by (auto simp: foreign_def prefix_Cons neq_Nil_conv)
  from assms(2) have np: "\<not> prefix q (''root'' @ r)" for r
    using not_prefix_of_tag by blast
  show ?thesis
  proof (cases "cells = []")
    case True
    have "tostring (Elem ''root'' [] cells) @ s = CHR ''<'' # (''root'' @ '' />'') @ s"
      using True by simp
    then show ?thesis
      using count_sub_piece [OF q _ assms(4), of "''root'' @ '' />''"] np [of "'' />''"]
      by simp
  next
    case False
    have at: "at_tag (CHR ''<'' # (CHR ''/'' # ''root'' @ ''>'') @ s)"
      by (simp add: at_tag_def)
    have "count_sub (CHR ''<'' # q) (tostring (Elem ''root'' [] cells) @ s) =
          count_sub (CHR ''<'' # q)
            (concat (map tostring cells) @ CHR ''<'' # (CHR ''/'' # ''root'' @ ''>'') @ s)"
      using count_sub_open [OF q _ _ False assms(4), of "''root''" "[]"] np [of "''>''"]
      by simp
    also have "\<dots> = count_sub (CHR ''<'' # q) (CHR ''<'' # (CHR ''/'' # ''root'' @ ''>'') @ s)"
      by (rule count_sub_cells [OF assms(1,3) at])
    also have "\<dots> = count_sub (CHR ''<'' # q) s"
      using count_sub_close [OF q _ assms(4), of "''root''"] slash by simp
    finally show ?thesis .
  qed
qed

text \<open>
  The three elements around \<^verbatim>\<open>root\<close>, with attributes \<open>a\<close> that have no \<^verbatim>\<open><\<close>
  in their names, for a pattern that is incomparable with the tag \<open>t\<close>.
\<close>

lemma count_sub_wrapper:
  assumes "foreign q" and "lt_free t" and "\<not> prefix q t \<and> \<not> prefix t q"
    and "list_all (\<lambda>kv. lt_free (fst kv)) a" and "at_tag s"
  shows "count_sub (CHR ''<'' # q) (tostring (Elem t a [e]) @ s) =
         count_sub (CHR ''<'' # q) (tostring e @ CHR ''<'' # (CHR ''/'' # t @ ''>'') @ s)"
proof -
  from assms(1) have q: "lt_free q" by (simp add: foreign_def)
  from assms(3) have np: "\<not> prefix q (t @ r)" for r
    using not_prefix_of_tag by blast
  show ?thesis
    using count_sub_open [OF q assms(2,4) _ assms(5), of "[e]"] np [of "concat (map attrib_text a) @ ''>''"]
    by simp
qed

lemma count_sub_closer:
  assumes "foreign q" and "lt_free t" and "at_tag s"
  shows "count_sub (CHR ''<'' # q) (CHR ''<'' # (CHR ''/'' # t @ ''>'') @ s) =
         count_sub (CHR ''<'' # q) s"
proof -
  from assms(1) have q: "lt_free q" and slash: "\<not> prefix q (CHR ''/'' # r)" for r
    by (auto simp: foreign_def prefix_Cons neq_Nil_conv)
  show ?thesis
    using count_sub_close [OF q assms(2,3)] slash by simp
qed

lemma count_sub_diagram:
  assumes "inner_foreign q" and "list_all wf_cell cells" and "at_tag s"
    and "list_all (\<lambda>kv. lt_free (fst kv)) a" and "list_all (\<lambda>kv. lt_free (fst kv)) b"
  shows "count_sub (CHR ''<'' # q)
           (tostring (Elem ''diagram'' a [Elem ''mxGraphModel'' b [Elem ''root'' [] cells]]) @ s) =
         count_sub (CHR ''<'' # q) s"
proof -
  from assms(1) have f: "foreign q"
    and d: "\<not> prefix q ''diagram'' \<and> \<not> prefix ''diagram'' q"
    and m: "\<not> prefix q ''mxGraphModel'' \<and> \<not> prefix ''mxGraphModel'' q"
    and r: "\<not> prefix q ''root'' \<and> \<not> prefix ''root'' q"
    by (simp_all add: inner_foreign_def)
  let ?cd = "CHR ''<'' # (CHR ''/'' # ''diagram'' @ ''>'') @ s"
  let ?cm = "CHR ''<'' # (CHR ''/'' # ''mxGraphModel'' @ ''>'') @ ?cd"
  have atd: "at_tag ?cd" and atm: "at_tag ?cm" by (simp_all add: at_tag_def)
  have "count_sub (CHR ''<'' # q)
           (tostring (Elem ''diagram'' a [Elem ''mxGraphModel'' b [Elem ''root'' [] cells]]) @ s) =
        count_sub (CHR ''<'' # q)
           (tostring (Elem ''mxGraphModel'' b [Elem ''root'' [] cells]) @ ?cd)"
    by (rule count_sub_wrapper [OF f _ d assms(4,3)]) simp
  also have "\<dots> = count_sub (CHR ''<'' # q) (tostring (Elem ''root'' [] cells) @ ?cm)"
    by (rule count_sub_wrapper [OF f _ m assms(5) atd]) simp
  also have "\<dots> = count_sub (CHR ''<'' # q) ?cm"
    by (rule count_sub_root [OF f r assms(2) atm])
  also have "\<dots> = count_sub (CHR ''<'' # q) ?cd"
    by (rule count_sub_closer [OF f _ atd]) simp
  also have "\<dots> = count_sub (CHR ''<'' # q) s"
    by (rule count_sub_closer [OF f _ assms(3)]) simp
  finally show ?thesis .
qed

lemma inner_foreign_xml: "inner_foreign ''?xml''"
  by (simp add: inner_foreign_def foreign_def)

lemma inner_foreign_mxfile: "inner_foreign ''mxfile''"
  by (simp add: inner_foreign_def foreign_def)

lemma count_sub_document:
  assumes "list_all wf_cell cells"
  shows "count_sub ''<?xml'' (tostring (document cells)) = 0"
    and "count_sub ''<mxfile'' (tostring (document cells)) = 1"
proof -
  let ?a = "[(''host'', ''app.diagrams.net''), (''modified'', ''2025-01-01T00:00:00.000Z'')]"
  let ?inner = "Elem ''diagram''
          [(''id'', ''security-arch''), (''name'', ''Security Reference Architecture'')]
          [Elem ''mxGraphModel''
             [(''dx'', ''1422''), (''dy'', ''794''), (''grid'', ''1''), (''gridSize'', ''10''),
              (''guides'', ''1''), (''tooltips'', ''1''), (''connect'', ''1''),
              (''arrows'', ''1''), (''fold'', ''1''), (''page'', ''1''), (''pageScale'', ''1''),
              (''pageWidth'', ''1600''), (''pageHeight'', ''3200''), (''math'', ''0''),
              (''shadow'', ''0'')]
             [Elem ''root'' [] cells]]"
  let ?close = "CHR ''<'' # (CHR ''/'' # ''mxfile'' @ ''>'') @ []"
  have at: "at_tag ?close" "at_tag []" by (simp_all add: at_tag_def)
  have ka: "list_all (\<lambda>kv. lt_free (fst kv)) ?a" by simp
  have doc: "tostring (document cells) = tostring (Elem ''mxfile'' ?a [?inner]) @ []"
    by (simp add: document_def)
  have inner: "count_sub (CHR ''<'' # q) (tostring ?inner @ ?close) =
               count_sub (CHR ''<'' # q) ?close" if "inner_foreign q" for q
    by (rule count_sub_diagram [OF that assms at(1)]) simp_all
  have opn: "count_sub (CHR ''<'' # q) (tostring (Elem ''mxfile'' ?a [?inner]) @ []) =
          (if prefix q (''mxfile'' @ concat (map attrib_text ?a) @ ''>'') then 1 else 0) +
          count_sub (CHR ''<'' # q) (tostring ?inner @ ?close)" if "lt_free q" for q
    using count_sub_open [OF that _ ka _ at(2), of "''mxfile''" "[?inner]"] by simp
  have cls: "count_sub (CHR ''<'' # q) ?close = 0" if "inner_foreign q" for q
  proof -
    have "count_sub (CHR ''<'' # q) ?close = count_sub (CHR ''<'' # q) []"
      using that by (intro count_sub_closer) (simp_all add: inner_foreign_def at_tag_def)
    then show ?thesis by (subst (asm) (2) count_sub.simps) simp
  qed
  have "count_sub (CHR ''<'' # ''?xml'') (tostring (Elem ''mxfile'' ?a [?inner]) @ []) =
          0 + count_sub (CHR ''<'' # ''?xml'') (tostring ?inner @ ?close)"
    by (subst opn) (simp_all del: tostring.simps)
  then have "count_sub (CHR ''<'' # ''?xml'') (tostring (document cells)) = 0"
    by (simp only: doc inner [OF inner_foreign_xml] cls [OF inner_foreign_xml] add_0)
  then show "count_sub ''<?xml'' (tostring (document cells)) = 0" by simp
  have "count_sub (CHR ''<'' # ''mxfile'') (tostring (Elem ''mxfile'' ?a [?inner]) @ []) =
          1 + count_sub (CHR ''<'' # ''mxfile'') (tostring ?inner @ ?close)"
    by (subst opn) (simp_all del: tostring.simps)
  then have "count_sub (CHR ''<'' # ''mxfile'') (tostring (document cells)) = 1"
    by (simp only: doc inner [OF inner_foreign_mxfile] cls [OF inner_foreign_mxfile] add_0_right)
  then show "count_sub ''<mxfile'' (tostring (document cells)) = 1" by simp
qed

lemma serialize_document:
  assumes "list_all wf_cell cells"
  shows "serialize_xml_safe (document cells) = Inr (xml_declaration @ tostring (document cells))"
    and "count_sub ''<?xml'' (xml_declaration @ tostring (document cells)) = 1"
    and "find_sub ''<?xml'' (xml_declaration @ tostring (document cells)) = Some 0"
    and "count_sub ''<mxfile'' (xml_declaration @ tostring (document cells)) = 1"
proof -
  let ?rough = "tostring (document cells)"
  obtain u where decl: "xml_declaration = CHR ''<'' # u" and u: "lt_free u"
    and pu: "prefix ''?xml'' u" and nu: "\<not> prefix ''mxfile'' u"
    by (simp add: xml_declaration_def)
  have at: "at_tag ?rough" using at_tag_tostring [of "document cells" "[]"] by simp
  have "count_sub (CHR ''<'' # ''?xml'') (CHR ''<'' # u @ ?rough) = 1 + count_sub (CHR ''<'' # ''?xml'') ?rough"
    using count_sub_piece [OF _ u at, of "''?xml''"] pu by simp
  then show c1: "count_sub ''<?xml'' (xml_declaration @ ?rough) = 1"
    using count_sub_document(1) [OF assms] by (simp add: decl)
  have "count_sub (CHR ''<'' # ''mxfile'') (CHR ''<'' # u @ ?rough) = count_sub (CHR ''<'' # ''mxfile'') ?rough"
    using count_sub_piece [OF _ u at, of "''mxfile''"] nu by simp
  then show c2: "count_sub ''<mxfile'' (xml_declaration @ ?rough) = 1"
    using count_sub_document(2) [OF assms] by (simp add: decl)
  show f: "find_sub ''<?xml'' (xml_declaration @ ?rough) = Some 0"
    using pu by (simp add: decl)
  have "find_sub ''<mxfile'' (xml_declaration @ ?rough) \<noteq> None"
    using c2 by (intro count_sub_pos_find) simp_all
  then show "serialize_xml_safe (document cells) = Inr (xml_declaration @ ?rough)"
    using c1 f by (simp add: serialize_xml_safe_def Let_def contains_sub_def)
qed

section \<open>The renderer returns a document\<close>

lemma wf_initial_cells: "list_all wf_cell initial_cells"
  by (simp add: initial_cells_def)

text \<open>For every graph, the renderer returns the declaration followed by the serialised
  tree, and every cell of the tree is well-formed.\<close>

lemma render_document:
  "\<exists>cells. list_all wf_cell cells \<and>
           render g = Inr (xml_declaration @ tostring (document cells))"
proof -
  define zones where "zones = sorted_zones (dsl_zones g)"
  define niz where "niz = group_nodes (dsl_nodes g) []"
  define hf where "hf = (\<lambda>k. zone_height (length (nodes_of_zone niz k)))"
  define heights where "heights = zone_heights_loop zones niz []"
  have hs: "\<forall>z\<in>set zones. dict_get heights (zone_id z) = Some (hf (zone_id z))"
    by (simp add: heights_def hf_def zone_heights_loop_get)
  have "geometry_ok hf []" by (simp add: geometry_ok_def)
  from zone_geometry_loop_ok [OF hs this, of 0]
  obtain y geo where
    geo: "zone_geometry_loop zones heights 0 [] = Inr (y, geo)" and ok: "geometry_ok hf geo"
    and gk0: "\<forall>k. k \<in> zone_id ` set zones \<or> dict_get ([] :: (string, geometry) dict) k \<noteq> None \<longrightarrow> dict_get geo k \<noteq> None"
    by (elim exE conjE) (rule that)
  have gk: "\<forall>z\<in>set zones. dict_get geo (zone_id z) \<noteq> None"
    using gk0 by simp
  from zone_cells_loop_ok [OF gk wf_initial_cells, of 1 "[]"]
  obtain ctr1 cells1 zids where
    zc: "zone_cells_loop zones geo 1 initial_cells [] = Inr (ctr1, cells1, zids)"
    and wf1: "list_all wf_cell cells1"
    and zk0: "\<forall>k. k \<in> zone_id ` set zones \<or> dict_get ([] :: (string, string) dict) k \<noteq> None \<longrightarrow> dict_get zids k \<noteq> None"
    by (elim exE conjE) (rule that)
  have zk: "\<forall>z\<in>set zones. dict_get zids (zone_id z) \<noteq> None"
    using zk0 by simp
  from node_cells_loop_ok [OF zk gk ok [unfolded hf_def] wf1, of ctr1 "[]"]
  obtain ctr2 cells2 nids where
    nc: "node_cells_loop zones zids geo niz ctr1 cells1 [] = Inr (ctr2, cells2, nids)"
    and wf2: "list_all wf_cell cells2"
    by (elim exE conjE) (rule that)
  obtain ctr3 cells3 where
    tb: "tb_cells_loop (enumerate 0 (dsl_trust_boundaries g)) geo ctr2 cells2 = (ctr3, cells3)"
    by (cases "tb_cells_loop (enumerate 0 (dsl_trust_boundaries g)) geo ctr2 cells2")
  have wf3: "list_all wf_cell cells3"
    using tb_cells_loop_wf [OF wf2, of "enumerate 0 (dsl_trust_boundaries g)" geo ctr2] tb by simp
  obtain ctr4 cells4 where
    fl: "flow_cells_loop (dsl_flows g) nids ctr3 cells3 = (ctr4, cells4)"
    by (cases "flow_cells_loop (dsl_flows g) nids ctr3 cells3")
  have wf4: "list_all wf_cell cells4"
    using flow_cells_loop_wf [OF wf3, of "dsl_flows g" nids ctr3] fl by simp
  define legend where
    "legend = add_cell (''legend-'' @ str_nat ctr4) ''1'' legend_text STYLE_LEGEND True False
       (PyInt (CANVAS_WIDTH - LEGEND_WIDTH - 20))
       (PyFloat (fold (\<lambda>tb y. y + TB_HEIGHT) (dsl_trust_boundaries g) y + 20))
       (PyInt LEGEND_WIDTH) (PyInt LEGEND_HEIGHT) ''0'' None None"
  have wf5: "list_all wf_cell (cells4 @ [legend])"
    using wf4 by (simp add: legend_def wf_add_cell)
  have "render g = serialize_xml_safe (document (cells4 @ [legend]))"
    unfolding render_def Let_def zones_def [symmetric] niz_def [symmetric] heights_def [symmetric]
    by (simp only: geo zc nc tb fl sum.case prod.case next_id_def legend_def)
  then have "render g = Inr (xml_declaration @ tostring (document (cells4 @ [legend])))"
    by (simp only: serialize_document(1) [OF wf5])
  with wf5 show ?thesis
    by (intro exI [of _ "cells4 @ [legend]"] conjI)
qed

lemma add_nodes_error:
  "add_nodes min_nodes zo nodes nbi next_n = Inl e \<Longrightarrow> e = ZeroDivisionError"
proof (induction "nat (min_nodes - int (length nodes))" arbitrary: nodes nbi next_n)
  case 0
  then show ?case by (subst (asm) add_nodes.simps) (auto split: if_splits)
next
  case (Suc k)
  then have lt: "int (length nodes) < min_nodes" by linarith
  show ?case
  proof (cases "length zo = 0")
    case True
    with Suc.prems lt show ?thesis by (subst (asm) add_nodes.simps) simp
  next
    case False
    define n where "n = \<lparr>node_id = ''node_'' @ str_nat next_n,
                         node_label = Some (''Component '' @ str_nat (next_n + 1)),
                         node_zone = Some (zone_id (zo ! (next_n mod length zo))),
                         node_type = Some ''service'', node_tags = []\<rparr>"
    from Suc.prems lt False have
      step: "add_nodes min_nodes zo (nodes @ [n]) (dict_set nbi (node_id n) n) (next_n + 1) = Inl e"
      by (subst (asm) add_nodes.simps) (simp add: Let_def n_def)
    have "k = nat (min_nodes - int (length (nodes @ [n])))"
      using Suc.hyps(2) by simp
    from Suc.hyps(1) [OF this step] show ?thesis .
  qed
qed

lemma count_nodes_per_zone_error:
  "count_nodes_per_zone ns d = Inl e \<Longrightarrow> e = KeyError ''zone''"
  by (induction ns arbitrary: d) (auto split: option.splits)

lemma expand_error:
  "expand_dsl_to_density d zids nbi min_zones min_nodes min_flows = Inl e \<Longrightarrow> e = ZeroDivisionError"
  by (auto simp: expand_dsl_to_density_def Let_def split: prod.splits sum.splits
           dest: add_nodes_error)

lemma validate_error:
  assumes "validate_and_prepare_dsl d min_zones min_nodes min_flows min_nodes_hard expand = Inl e"
  shows "e = ZeroDivisionError \<or> e = KeyError ''zone''"
proof -
  from assms have
    "validate_and_prepare_dsl_call d min_zones min_nodes min_flows min_nodes_hard expand = Inl e"
    by (simp add: validate_and_prepare_dsl_def split: sum.splits)
  then show ?thesis
    unfolding validate_and_prepare_dsl_call_def Let_def
    by (auto split: if_splits sum.splits prod.splits
             dest: expand_error count_nodes_per_zone_error)
qed

text \<open>What \<^verbatim>\<open>dsl_to_drawio\<close> can do: raise for a graph that the validation does not
  accept, or return the declaration followed by a tree of well-formed cells.\<close>

lemma dsl_to_drawio_cases:
  "(\<exists>e. dsl_to_drawio d = Inl e \<and> (\<forall>m. e \<noteq> AssertionError m)) \<or>
   (\<exists>cells. list_all wf_cell cells \<and>
      dsl_to_drawio d = Inr (xml_declaration @ tostring (document cells)))"
proof (cases "validate_and_prepare_dsl d MIN_ZONES MIN_NODES MIN_FLOWS MIN_NODES_HARD True")
  case (Inl e)
  from validate_error [OF Inl] Inl show ?thesis
    by (auto simp: dsl_to_drawio_def)
next
  case (Inr r)
  obtain go errs where r: "r = (go, errs)" by (cases r)
  show ?thesis
  proof (cases go)
    case None
    with Inr r show ?thesis by (simp add: dsl_to_drawio_def)
  next
    case (Some g)
    with Inr r have "dsl_to_drawio d = render g" by (simp add: dsl_to_drawio_def)
    with render_document [of g] show ?thesis by auto
  qed
qed

text \<open>
  Claim C1.  Every string that \<^verbatim>\<open>dsl_to_drawio\<close> returns contains the declaration
  preamble \<^verbatim>\<open><?xml\<close> exactly once, at offset 0 (so at most once, and at offset 0 when
  present), and contains the open tag \<^verbatim>\<open><mxfile\<close> of the root document exactly once.
  Angle brackets in names, labels and colours of the graph are escaped by the serialiser
  and do not count.
\<close>

theorem single_declaration:
  assumes "dsl_to_drawio d = Inr out"
  shows "count_sub ''<?xml'' out = 1 \<and> find_sub ''<?xml'' out = Some 0 \<and>
         count_sub ''<mxfile'' out = 1"
proof -
  from dsl_to_drawio_cases [of d] assms obtain cells where
    "list_all wf_cell cells" and "out = xml_declaration @ tostring (document cells)"
    by auto
  with serialize_document(2-4) show ?thesis by simp
qed

text \<open>The theorem at \<open>sparse_dsl\<close>, which the validation accepts and the renderer
  turns into a document.\<close>

theorem single_declaration_witness:
  "dsl_to_drawio sparse_dsl = Inr (the_document sparse_dsl) \<and>
   count_sub ''<?xml'' (the_document sparse_dsl) = 1 \<and>
   find_sub ''<?xml'' (the_document sparse_dsl) = Some 0 \<and>
   count_sub ''<mxfile'' (the_document sparse_dsl) = 1"
proof -
  have "returned_graph (prepare_default sparse_dsl) \<noteq> None"
    by code_simp
  then obtain g where "dsl_to_drawio sparse_dsl = render g"
    by (auto simp: returned_graph_def prepare_default_def dsl_to_drawio_def
             split: sum.splits option.splits list.splits)
  with render_document [of g] obtain out where h: "dsl_to_drawio sparse_dsl = Inr out"
    by auto
  then have "the_document sparse_dsl = out"
    by (simp add: the_document_def)
  with single_declaration [OF h] h show ?thesis
    by simp
qed

text \<open>
  Claim C6.  In a zone with \<open>n\<close> nodes the renderer places node number \<open>i\<close> at
  \<open>(node_x (zone_cols n) i, node_y (zone_cols n) i)\<close>, relative to a zone whose content
  is \<open>zone_width\<close> wide and \<open>zone_height n - ZONE_HEADER_HEIGHT\<close> high: the position is
  not negative and the node lies inside the content.  So neither assertion of the placement
  loop fires, and \<^verbatim>\<open>dsl_to_drawio\<close> raises no \<^verbatim>\<open>AssertionError\<close> at all, for any
  graph.
\<close>

theorem node_placement_in_bounds:
  assumes "i < n"
  shows "0 \<le> node_x (zone_cols n) i \<and> 0 \<le> node_y (zone_cols n) i \<and>
         node_x (zone_cols n) i + NODE_W \<le> zone_width \<and>
         node_y (zone_cols n) i + NODE_H \<le> zone_height n - ZONE_HEADER_HEIGHT \<and>
         dsl_to_drawio d \<noteq> Inl (AssertionError m)"
  using node_x_bounds [OF assms] node_y_bounds [OF assms] dsl_to_drawio_cases [of d]
  by auto

text \<open>The theorem at the eighth node of a zone with eight nodes: second column, second
  row.\<close>

theorem node_placement_in_bounds_witness:
  "(7 :: nat) < 8 \<and> node_x (zone_cols 8) 7 = 240 \<and> node_y (zone_cols 8) 7 = 140 \<and>
   zone_width = 1400 \<and> zone_height 8 - ZONE_HEADER_HEIGHT = 240 \<and>
   node_x (zone_cols 8) 7 + NODE_W \<le> zone_width \<and>
   node_y (zone_cols 8) 7 + NODE_H \<le> zone_height 8 - ZONE_HEADER_HEIGHT \<and>
   dsl_to_drawio sparse_dsl \<noteq> Inl (AssertionError ''node must be inside zone'')"
proof -
  have h: "(7 :: nat) < 8" by simp
  have v: "node_x (zone_cols 8) 7 = 240" "node_y (zone_cols 8) 7 = 140" "zone_width = 1400"
    "zone_height 8 - ZONE_HEADER_HEIGHT = 240"
    by code_simp+
  from node_placement_in_bounds [OF h, of sparse_dsl "''node must be inside zone''"] h v
  show ?thesis by simp
qed

section \<open>Fields that the schema does not define\<close>

lemma in_set_extra_errors:
  "k \<in> fst ` set kvs \<Longrightarrow> k \<notin> set names \<Longrightarrow> extra_errors loc names kvs \<noteq> []"
  by (auto simp: extra_errors_def filter_empty_conv)

text \<open>A payload with a key at the top level that is not a field of the root model is
  rejected: no model, and at least one message.\<close>

lemma top_level_extra_rejected:
  assumes "k \<in> fst ` set kvs"
    and "k \<notin> set (''title'' # map fst root_collections)"
  shows "fst (validate_dsl (RDict kvs)) = None \<and> snd (validate_dsl (RDict kvs)) \<noteq> []"
proof -
  from in_set_extra_errors [OF assms] have "model_errors (RDict kvs) \<noteq> []"
    by (simp add: model_errors_def root_extra_forbid_def)
  then show ?thesis
    by (simp add: validate_dsl_def Let_def)
qed

lemma top_level_extra_example:
  "validate_dsl extra_at_top_payload = (None, [''bogus: Extra inputs are not permitted''])"
  by code_simp

text \<open>
  Claim C5 at \<open>extra_in_zone_payload\<close>: the zone has a field \<^verbatim>\<open>bogus\<close> that the
  schema does not define, and \<^verbatim>\<open>validate_dsl\<close> returns a model and no message; the
  field is dropped.
\<close>

theorem entity_extra_accepted:
  "validate_dsl extra_in_zone_payload =
     (Some (RDict [(''title'', RNull),
                   (''zones'', RList [RDict [(''id'', RStr ''z0''), (''name'', RStr ''Z''),
                                             (''order'', RInt 0), (''color'', RStr ''#dae8fc'')]]),
                   (''trust_boundaries'', RList []), (''groups'', RList []),
                   (''nodes'', RList []), (''flows'', RList []), (''controls'', RList [])]),
      [])"
  by code_simp

end
